theory Spec2Isabelle
  imports Complex_Main
begin

section \<open>Panel tree compiler (viewer_page.ts, renderNodes)\<close>

text \<open>
  A \<open>TrackNode\<close> of the workspace, with the fields \<open>renderNodes\<close> and
  \<open>renderTrackPanel\<close> read: \<open>uri\<close> (optional), \<open>headless\<close>, \<open>collapsed\<close>,
  \<open>isSummary\<close> and the ordered \<open>children\<close>.
\<close>

datatype TrackNode =
  TrackNode (uri: "string option") (headless: bool) (collapsed: bool) (isSummary: bool)
    (children: "TrackNode list")

text \<open>
  The attributes \<open>renderTrackPanel\<close> hands to \<open>new TrackPanel({...})\<close>. The renderer
  type \<open>'r\<close> is whatever the track registry returns.
\<close>

record 'r TrackPanel =
  node :: TrackNode
  trackRenderer :: "'r option"
  indentationLevel :: nat
  topOffsetPx :: real

text \<open>A \<open>PanelOrGroup\<close>: a plain panel, or the object literal with \<open>kind: 'group'\<close>.\<close>

datatype 'r PanelOrGroup =
  Panel "'r TrackPanel"
| Group (groupCollapsed: bool) (header: "'r TrackPanel") (sticky: bool)
    (groupTopOffsetPx: real) (childPanels: "'r PanelOrGroup list")

text \<open>
  The collaborators of the compiler that are not part of the compiled file, taken as
  parameters: the registry's \<open>getTrackRenderer\<close> and the \<open>heightPx\<close> getter of a
  \<open>TrackPanel\<close>.
\<close>

record 'r PanelEnv =
  getTrackRenderer :: "string \<Rightarrow> 'r"
  heightPx :: "'r TrackPanel \<Rightarrow> real"

text \<open>
  \<open>if (trackNode.uri)\<close> is a truthiness test: an absent uri and the empty string both
  fail it.
\<close>

definition renderTrackPanel ::
  "'r PanelEnv \<Rightarrow> TrackNode \<Rightarrow> nat \<Rightarrow> real \<Rightarrow> 'r TrackPanel" where
  "renderTrackPanel env trackNode indent topPx =
     (let tr = (case uri trackNode of
                  None \<Rightarrow> None
                | Some u \<Rightarrow> if u = [] then None else Some (getTrackRenderer env u))
      in \<lparr>node = trackNode, trackRenderer = tr, indentationLevel = indent,
          topOffsetPx = topPx\<rparr>)"

lemma children_smaller: "n \<in> set ns \<Longrightarrow> size_list size (children n) < size_list size ns"
proof -
  assume mem: "n \<in> set ns"
  have a: "size_list size (children n) < size n"
    by (cases n) simp
  have b: "size n \<le> size_list size ns"
    using mem by (induction ns) auto
  from a b show ?thesis by linarith
qed

function renderNodes ::
  "'r PanelEnv \<Rightarrow> TrackNode list \<Rightarrow> nat \<Rightarrow> real \<Rightarrow> 'r PanelOrGroup list" where
  "renderNodes env nodes indent topPx =
     concat (map (\<lambda>n.
       if headless n then renderNodes env (children n) indent topPx
       else if children n = [] then [Panel (renderTrackPanel env n indent topPx)]
       else
         [Group (collapsed n) (renderTrackPanel env n indent topPx) (isSummary n) topPx
            (if collapsed n then []
             else renderNodes env (children n) (indent + 1)
                    (if isSummary n
                     then topPx + heightPx env (renderTrackPanel env n indent topPx)
                     else topPx))]) nodes)"
  by pat_completeness auto
termination
  by (relation "measure (\<lambda>(env, nodes, indent, topPx). size_list size nodes)")
     (auto simp: children_smaller)

declare renderNodes.simps [simp del]

text \<open>\<open>renderToplevelPanels\<close>: the workspace's children at indent 0 and offset 0.\<close>

definition renderToplevelPanels :: "'r PanelEnv \<Rightarrow> TrackNode list \<Rightarrow> 'r PanelOrGroup list" where
  "renderToplevelPanels env workspaceChildren = renderNodes env workspaceChildren 0 0"

text \<open>Every \<open>TrackPanel\<close> of a compiled list, headers included, in order.\<close>

fun panelsOf :: "'r PanelOrGroup \<Rightarrow> 'r TrackPanel list" where
  "panelsOf (Panel p) = [p]"
| "panelsOf (Group c h s t cs) = h # concat (map panelsOf cs)"

definition allPanels :: "'r PanelOrGroup list \<Rightarrow> 'r TrackPanel list" where
  "allPanels ps = concat (map panelsOf ps)"

text \<open>
  Every entry of a compiled list at any depth: the entries of the list and, for a group,
  those of its \<open>childPanels\<close>, in order.
\<close>

fun entriesOf :: "'r PanelOrGroup \<Rightarrow> 'r PanelOrGroup list" where
  "entriesOf (Panel p) = [Panel p]"
| "entriesOf (Group c h s t cs) = Group c h s t cs # concat (map entriesOf cs)"

definition allEntries :: "'r PanelOrGroup list \<Rightarrow> 'r PanelOrGroup list" where
  "allEntries ps = concat (map entriesOf ps)"



section \<open>Gesture callbacks of the viewer page (viewer_page.ts)\<close>

text \<open>
  Times are \<open>bigint\<close> nanoseconds, hence \<open>int\<close>. Pixel coordinates are JavaScript
  numbers; they are modelled as \<open>real\<close>, so the comparisons and \<open>min\<close>/\<open>max\<close> of the
  source are exact and \<open>NaN\<close> does not occur among them.
\<close>

type_synonym time = int

text \<open>An \<open>Area\<close>: \<open>{start, end, trackUris}\<close> (\<open>end\<close> is written \<open>endT\<close>).\<close>

record Area =
  start :: time
  endT :: time
  trackUris :: "string list"

text \<open>
  The selection is a tagged union on \<open>kind\<close>: \<open>'empty'\<close>, \<open>'track'\<close>,
  \<open>'track_event'\<close> (with \<open>trackUri\<close> and \<open>eventId\<close>) and \<open>'area'\<close>.
\<close>

datatype Selection =
  EmptySelection
| TrackSelection string
| TrackEventSelection (trackUri: string) (eventId: nat)
| AreaSelection Area

datatype Boundary = START | END

datatype RoundMode = Floor | Ceil

text \<open>
  A \<open>TimeScale\<close> object, as far as the callbacks use it. The class lives in
  \<open>base/time_scale\<close>, outside the files at hand, so its three methods are fields of a
  record that the environment builds. \<open>'h\<close> is the high-precision time that
  \<open>pxToHpTime\<close> returns.
\<close>

record 'h TimeScale =
  timeToPx :: "time \<Rightarrow> real"
  pxToHpTime :: "real \<Rightarrow> 'h"
  pxToDuration :: "real \<Rightarrow> real"

text \<open>
  What the callbacks take from their surroundings, as parameters: the constant
  \<open>TRACK_SHELL_WIDTH\<close>, \<open>window.devicePixelRatio\<close>, the constructor
  \<open>new TimeScale(window, {left, right})\<close>, \<open>HighPrecisionTime.toTime(mode?)\<close>,
  \<open>visibleWindow.toTimeSpan()\<close> (start and end), the trace bounds
  \<open>traceInfo.start\<close> and \<open>traceInfo.end\<close>, the timeline's \<open>panVisibleWindow\<close> and
  \<open>zoomVisibleWindow\<close> as functions on the visible window \<open>'w\<close>, and the track list
  \<open>timeline.selectArea\<close> stores when it is called without one.
\<close>

record ('w, 'h) ViewerEnv =
  TRACK_SHELL_WIDTH :: real
  devicePixelRatio :: real
  newTimeScale :: "'w \<Rightarrow> real \<Rightarrow> real \<Rightarrow> 'h TimeScale"
  toTime :: "'h \<Rightarrow> RoundMode option \<Rightarrow> time"
  toTimeSpan :: "'w \<Rightarrow> time \<times> time"
  traceInfoStart :: time
  traceInfoEnd :: time
  panVisibleWindow :: "real \<Rightarrow> 'w \<Rightarrow> 'w"
  zoomVisibleWindow :: "real \<Rightarrow> real option \<Rightarrow> 'w \<Rightarrow> 'w"
  defaultTrackUris :: "Area option \<Rightarrow> string list"

text \<open>Calls that leave the component: the redraw scheduler, local storage, publishers.\<close>

datatype Call =
  ScheduleRedraw
| ScheduleFullRedraw
| DismissPanningHint
| PublishShowPanningHint
| SelectionClear

text \<open>
  The mutable state the callbacks read and write: the fields \<open>timelineWidthPx\<close> and
  \<open>keepCurrentSelection\<close> of \<open>ViewerPage\<close>, \<open>trace.selection.selection\<close>, and of
  \<open>trace.timeline\<close> the in-progress \<open>selectedArea\<close>, \<open>areaY.start\<close>, \<open>areaY.end\<close> and
  \<open>visibleWindow\<close>; \<open>calls\<close> logs the outgoing calls in order.
\<close>

record 'w ViewerState =
  timelineWidthPx :: "real option"
  keepCurrentSelection :: bool
  selection :: Selection
  selectedArea :: "Area option"
  areaYStart :: "real option"
  areaYEnd :: "real option"
  visibleWindow :: 'w
  calls :: "Call list"

text \<open>
  Modelled from the spec: \<open>base/math_utils.clamp\<close> is not among the files; the spec says
  the bounds are "clamped to \<open>[0, viewportWidth]\<close>".
\<close>

definition clamp :: "real \<Rightarrow> real \<Rightarrow> real \<Rightarrow> real" where
  "clamp val lower upper = max lower (min upper val)"

text \<open>
  Modelled from the spec: \<open>Timeline.selectArea(start, end, trackUris?)\<close> is not among the
  files; the spec's in-progress \<open>selectedArea\<close> is "replaced wholesale on each new
  selection".
\<close>

definition timelineSelectArea ::
  "('w, 'h) ViewerEnv \<Rightarrow> time \<Rightarrow> time \<Rightarrow> string list option \<Rightarrow> 'w ViewerState
     \<Rightarrow> 'w ViewerState" where
  "timelineSelectArea env s e tracks st =
     st\<lparr>selectedArea := Some \<lparr>start = s, endT = e,
          trackUris = (case tracks of Some us \<Rightarrow> us
                       | None \<Rightarrow> defaultTrackUris env (selectedArea st))\<rparr>\<rparr>"

text \<open>
  Modelled from the spec: \<open>Timeline.deselectArea()\<close> is not among the files; it removes
  the in-progress selection from the timeline.
\<close>

definition timelineDeselectArea :: "'w ViewerState \<Rightarrow> 'w ViewerState" where
  "timelineDeselectArea st = st\<lparr>selectedArea := None\<rparr>"

text \<open>
  Modelled from the spec: the selection service's \<open>selectArea(area)\<close> is not among the
  files; the in-progress area is "promoted to the committed SelectedArea on gesture end".
\<close>

definition selectionSelectArea :: "Area \<Rightarrow> 'w ViewerState \<Rightarrow> 'w ViewerState" where
  "selectionSelectArea area st = st\<lparr>selection := AreaSelection area\<rparr>"

text \<open>
  Modelled from the spec: the selection service's \<open>clear()\<close> is not among the files; it
  "drops any selection entirely, track or area or event". The call itself is logged.
\<close>

definition selectionClear :: "'w ViewerState \<Rightarrow> 'w ViewerState" where
  "selectionClear st = st\<lparr>selection := EmptySelection, calls := calls st @ [SelectionClear]\<rparr>"

text \<open>
  JavaScript's \<open>/\<close> on numbers: a zero divisor gives an infinity or \<open>NaN\<close>, never a
  finite number; \<open>None\<close> stands for those.
\<close>

definition jsDivide :: "real \<Rightarrow> real \<Rightarrow> real option" where
  "jsDivide a b = (if b = 0 then None else Some (a / b))"

text \<open>\<open>onTimeRangeBoundary(trace, timescale, mousePos)\<close>.\<close>

definition onTimeRangeBoundary ::
  "('w, 'h) ViewerEnv \<Rightarrow> 'w ViewerState \<Rightarrow> 'h TimeScale \<Rightarrow> real \<Rightarrow> Boundary option" where
  "onTimeRangeBoundary env st timescale mousePos =
     (case selection st of
        AreaSelection sel \<Rightarrow>
          (let area = (case selectedArea st of Some a \<Rightarrow> a | None \<Rightarrow> sel);
               startPx = timeToPx timescale (start area);
               endPx = timeToPx timescale (endT area);
               startDrag = mousePos - TRACK_SHELL_WIDTH env;
               startDistance = \<bar>startPx - startDrag\<bar>;
               endDistance = \<bar>endPx - startDrag\<bar>;
               range = 3 * devicePixelRatio env
           in if startDistance < range \<and> startDistance \<le> endDistance then Some START
              else if endDistance < range \<and> endDistance \<le> startDistance then Some END
              else None)
      | _ \<Rightarrow> None)"

text \<open>The \<open>onPanned\<close> callback.\<close>

definition onPanned :: "('w, 'h) ViewerEnv \<Rightarrow> 'w ViewerState \<Rightarrow> real \<Rightarrow> 'w ViewerState" where
  "onPanned env st pannedPx =
     (case timelineWidthPx st of
        None \<Rightarrow> st
      | Some w \<Rightarrow>
          (let timescale = newTimeScale env (visibleWindow st) 0 w;
               tDelta = pxToDuration timescale pannedPx
           in st\<lparr>keepCurrentSelection := True,
                 visibleWindow := panVisibleWindow env tDelta (visibleWindow st),
                 calls := calls st @ [DismissPanningHint, ScheduleRedraw]\<rparr>))"

text \<open>
  The \<open>onZoomed\<close> callback; \<open>rectWidth\<close> is \<open>dom.getBoundingClientRect().width\<close>.
\<close>

definition onZoomed ::
  "('w, 'h) ViewerEnv \<Rightarrow> real \<Rightarrow> 'w ViewerState \<Rightarrow> real \<Rightarrow> real \<Rightarrow> 'w ViewerState" where
  "onZoomed env rectWidth st zoomedPositionPx zoomRatio =
     (let zoomPx = zoomedPositionPx - TRACK_SHELL_WIDTH env;
          centerPoint = jsDivide zoomPx (rectWidth - TRACK_SHELL_WIDTH env)
      in st\<lparr>visibleWindow := zoomVisibleWindow env (1 - zoomRatio) centerPoint (visibleWindow st),
            calls := calls st @ [ScheduleRedraw]\<rparr>)"

text \<open>The \<open>editSelection\<close> callback.\<close>

definition editSelection :: "('w, 'h) ViewerEnv \<Rightarrow> 'w ViewerState \<Rightarrow> real \<Rightarrow> bool" where
  "editSelection env st currentPx =
     (case timelineWidthPx st of
        None \<Rightarrow> False
      | Some w \<Rightarrow>
          onTimeRangeBoundary env st (newTimeScale env (visibleWindow st) 0 w) currentPx \<noteq> None)"

text \<open>
  The \<open>onSelection\<close> callback. Every \<open>return\<close> of the source is a branch that skips the
  final \<open>raf.scheduleRedraw()\<close>.
\<close>

definition onSelection ::
  "('w, 'h) ViewerEnv \<Rightarrow> 'w ViewerState \<Rightarrow> real \<Rightarrow> real \<Rightarrow> real \<Rightarrow> real \<Rightarrow> real \<Rightarrow> bool
     \<Rightarrow> 'w ViewerState" where
  "onSelection env st dragStartX dragStartY prevX currentX currentY editing =
     (case timelineWidthPx st of
        None \<Rightarrow> st
      | Some w \<Rightarrow>
          (let timespan = toTimeSpan env (visibleWindow st);
               st1 = st\<lparr>keepCurrentSelection := True\<rparr>;
               timescale = newTimeScale env (visibleWindow st) 0 w
           in if editing then
                (case selection st1 of
                   AreaSelection sel \<Rightarrow>
                     (let area = (case selectedArea st1 of Some a \<Rightarrow> a | None \<Rightarrow> sel);
                          newTime = toTime env
                            (pxToHpTime timescale (currentX - TRACK_SHELL_WIDTH env)) None
                      in case onTimeRangeBoundary env st1 timescale prevX of
                           None \<Rightarrow> st1
                         | Some curBoundary \<Rightarrow>
                             (let keepTime = (if curBoundary = START then endT area
                                              else start area);
                                  newTime2 = (if newTime < keepTime
                                              then max newTime (fst timespan)
                                              else min newTime (snd timespan));
                                  st2 = timelineSelectArea env
                                    (max (min keepTime newTime2) (traceInfoStart env))
                                    (min (max keepTime newTime2) (traceInfoEnd env))
                                    (Some (trackUris sel)) st1
                              in st2\<lparr>calls := calls st2 @ [ScheduleRedraw]\<rparr>))
                 | _ \<Rightarrow> st1\<lparr>calls := calls st1 @ [ScheduleRedraw]\<rparr>)
              else
                (let startPx = min dragStartX currentX - TRACK_SHELL_WIDTH env;
                     endPx = max dragStartX currentX - TRACK_SHELL_WIDTH env
                 in if startPx < 0 \<and> endPx < 0 then st1
                    else
                      (let startPx2 = clamp startPx 0 w;
                           endPx2 = clamp endPx 0 w;
                           st2 = timelineSelectArea env
                             (toTime env (pxToHpTime timescale startPx2) (Some Floor))
                             (toTime env (pxToHpTime timescale endPx2) (Some Ceil))
                             None st1
                       in st2\<lparr>areaYStart := Some dragStartY, areaYEnd := Some currentY,
                               calls := calls st2 @ [PublishShowPanningHint, ScheduleRedraw]\<rparr>))))"

text \<open>The \<open>endSelection\<close> callback.\<close>

definition endSelection :: "'w ViewerState \<Rightarrow> bool \<Rightarrow> 'w ViewerState" where
  "endSelection st edit =
     (let st1 = st\<lparr>areaYStart := None, areaYEnd := None\<rparr>;
          area = selectedArea st1;
          st2 = (if edit then
                   (case (selection st1, area) of
                      (AreaSelection sel, Some a) \<Rightarrow> selectionSelectArea a st1
                    | _ \<Rightarrow> st1)
                 else (case area of Some a \<Rightarrow> selectionSelectArea a st1 | None \<Rightarrow> st1));
          st3 = timelineDeselectArea st2
      in st3\<lparr>calls := calls st3 @ [ScheduleFullRedraw]\<rparr>)"

text \<open>The \<open>onclick\<close> handler of \<open>.pan-and-zoom-content\<close> in \<open>view\<close>.\<close>

definition onclick :: "'w ViewerState \<Rightarrow> 'w ViewerState" where
  "onclick st =
     (if keepCurrentSelection st then st\<lparr>keepCurrentSelection := False\<rparr>
      else selectionClear st)"

text \<open>The \<open>onPanelStackResize\<close> callback of the scrolling panel container.\<close>

definition onPanelStackResize ::
  "('w, 'h) ViewerEnv \<Rightarrow> 'w ViewerState \<Rightarrow> real \<Rightarrow> 'w ViewerState" where
  "onPanelStackResize env st width =
     st\<lparr>timelineWidthPx := Some (width - TRACK_SHELL_WIDTH env)\<rparr>"

text \<open>
  Modelled from the spec: the gesture handler (\<open>pan_and_zoom_handler\<close>) is not among the
  files. Per the spec, "entry to EDITING_SELECTION instead of SELECTING is decided by a
  boundary hit-test": a drag that starts at \<open>x\<close> edits when \<open>editSelection(x)\<close> answers
  true and otherwise begins a fresh SELECTING drag.
\<close>

datatype GestureState = IDLE | PANNING | ZOOMING | SELECTING | EDITING_SELECTION

definition dragStartState :: "('w, 'h) ViewerEnv \<Rightarrow> 'w ViewerState \<Rightarrow> real \<Rightarrow> GestureState" where
  "dragStartState env st x = (if editSelection env st x then EDITING_SELECTION else SELECTING)"

section \<open>Details panel of the current selection (TabPanel)\<close>

text \<open>
  The object literal \<open>{detailsPanel, isLoading}\<close> that \<open>maybeLoadDetailsPanel\<close> creates.
  The closure given to the limiter and the field \<open>trackEventDetailsPanel\<close> share it, so
  these objects live in a store (\<open>renderables\<close>, addressed by position) and the field
  holds an address.
\<close>

record 'p Renderable =
  detailsPanel :: 'p
  isLoading :: bool

text \<open>
  The track registry, as a parameter: \<open>getTrack(uri)\<close> may find nothing, a track may
  have no \<open>detailsPanel\<close> factory, and the factory may return nothing.
\<close>

record 'p TrackDescriptor =
  trackDetailsPanel :: "(Selection \<Rightarrow> 'p option) option"

record 'p TabEnv =
  getTrack :: "string \<Rightarrow> 'p TrackDescriptor option"

text \<open>
  The state of a \<open>TabPanel\<close>: the trace's current selection and the identity of that
  (immutable) selection object, what the selection monitor saw last, the store of
  renderables, the field \<open>trackEventDetailsPanel\<close>, the closures handed to
  \<open>limiter.schedule\<close> (each named by the address of the renderable it captured), and the
  outgoing calls.
\<close>

record 'p TabPanelState =
  currentSelection :: Selection
  selectionObject :: nat
  monitorCached :: "nat option"
  renderables :: "'p Renderable list"
  trackEventDetailsPanel :: "nat option"
  scheduled :: "nat list"
  tabCalls :: "Call list"

text \<open>
  A new \<open>TabPanel\<close>: nothing selected, a monitor that has seen nothing, no renderable
  and an undefined field.
\<close>

definition tabInit :: "'p TabPanelState" where
  "tabInit =
     \<lparr>currentSelection = EmptySelection, selectionObject = 0, monitorCached = None,
      renderables = [], trackEventDetailsPanel = None, scheduled = [], tabCalls = []\<rparr>"

text \<open>
  Modelled from the spec: \<open>Monitor.ifStateChanged\<close> (\<open>base/monitor\<close>) is not among the
  files; it is "a change-monitor comparing the selection value reference/shape to its
  previous observation each render pass". It answers and remembers what it saw.
\<close>

definition ifStateChanged :: "'p TabPanelState \<Rightarrow> bool \<times> 'p TabPanelState" where
  "ifStateChanged st =
     (monitorCached st \<noteq> Some (selectionObject st),
      st\<lparr>monitorCached := Some (selectionObject st)\<rparr>)"

text \<open>\<open>TabPanel.maybeLoadDetailsPanel\<close>.\<close>

definition maybeLoadDetailsPanel :: "'p TabEnv \<Rightarrow> 'p TabPanelState \<Rightarrow> 'p TabPanelState" where
  "maybeLoadDetailsPanel env st =
     (case ifStateChanged st of
        (False, st1) \<Rightarrow> st1
      | (True, st1) \<Rightarrow>
          (case currentSelection st1 of
             TrackEventSelection u e \<Rightarrow>
               (case getTrack env u of
                  None \<Rightarrow> st1\<lparr>trackEventDetailsPanel := None\<rparr>
                | Some td \<Rightarrow>
                    (case (case trackDetailsPanel td of
                             None \<Rightarrow> None
                           | Some f \<Rightarrow> f (currentSelection st1)) of
                       None \<Rightarrow> st1\<lparr>trackEventDetailsPanel := None\<rparr>
                     | Some dp \<Rightarrow>
                         (let a = length (renderables st1)
                          in st1\<lparr>renderables :=
                                   renderables st1 @ [\<lparr>detailsPanel = dp, isLoading = True\<rparr>],
                                 scheduled := scheduled st1 @ [a],
                                 trackEventDetailsPanel := Some a\<rparr>)))
           | _ \<Rightarrow> st1\<lparr>trackEventDetailsPanel := None\<rparr>))"

text \<open>
  The rest of the scheduled closure, after \<open>await detailsPanel.load(currentSelection)\<close>:
  \<open>renderable.isLoading = false; raf.scheduleFullRedraw()\<close>, on the renderable the
  closure captured. Only a closure that was scheduled can run. Which scheduled closures
  the limiter (\<open>base/async_limiter\<close>, not among the files) runs, and when, is left open:
  it is the order of the \<open>LoadCompleted\<close> events below.
\<close>

definition loadCompleted :: "nat \<Rightarrow> 'p TabPanelState \<Rightarrow> 'p TabPanelState" where
  "loadCompleted a st =
     (if a \<in> set (scheduled st) \<and> a < length (renderables st)
      then st\<lparr>renderables := (renderables st)[a := (renderables st ! a)\<lparr>isLoading := False\<rparr>],
              tabCalls := tabCalls st @ [ScheduleFullRedraw]\<rparr>
      else st)"

text \<open>The selection service installs a new selection object.\<close>

definition setSelection :: "Selection \<Rightarrow> 'p TabPanelState \<Rightarrow> 'p TabPanelState" where
  "setSelection sel st = st\<lparr>currentSelection := sel, selectionObject := selectionObject st + 1\<rparr>"

text \<open>What \<open>renderCSTabContent\<close> reads through the field: the renderable it points to.\<close>

definition detailsSlot :: "'p TabPanelState \<Rightarrow> 'p Renderable option" where
  "detailsSlot st = map_option (\<lambda>a. renderables st ! a) (trackEventDetailsPanel st)"

datatype TabEvent = SetSelection Selection | Render | LoadCompleted nat

fun tabStep :: "'p TabEnv \<Rightarrow> 'p TabPanelState \<Rightarrow> TabEvent \<Rightarrow> 'p TabPanelState" where
  "tabStep env st (SetSelection sel) = setSelection sel st"
| "tabStep env st Render = maybeLoadDetailsPanel env st"
| "tabStep env st (LoadCompleted a) = loadCompleted a st"

fun tabRun :: "'p TabEnv \<Rightarrow> 'p TabPanelState \<Rightarrow> TabEvent list \<Rightarrow> 'p TabPanelState" where
  "tabRun env st [] = st"
| "tabRun env st (ev # evs) = tabRun env (tabStep env st ev) evs"

text \<open>The details panel the registry yields for a selection, if any.\<close>

definition panelFor :: "'p TabEnv \<Rightarrow> Selection \<Rightarrow> 'p option" where
  "panelFor env sel =
     (case sel of
        TrackEventSelection u e \<Rightarrow>
          (case getTrack env u of
             None \<Rightarrow> None
           | Some td \<Rightarrow> (case trackDetailsPanel td of None \<Rightarrow> None | Some f \<Rightarrow> f sel))
      | _ \<Rightarrow> None)"

text \<open>The monitor has only seen selection objects that exist by now.\<close>

definition monitorOk :: "'p TabPanelState \<Rightarrow> bool" where
  "monitorOk st = (case monitorCached st of None \<Rightarrow> True | Some k \<Rightarrow> k \<le> selectionObject st)"

fun isSetSelection :: "TabEvent \<Rightarrow> bool" where
  "isSetSelection (SetSelection sel) = True"
| "isSetSelection ev = False"

section \<open>Cross-fade of the current selection tab (FadeContext, FadeOut, FadeIn)\<close>

definition FADE_TIME_MS :: nat where
  "FADE_TIME_MS = 50"

text \<open>
  A pending \<open>setTimeout\<close> callback: \<open>res\<close> of the promise a \<open>FadeOut\<close> returned from
  \<open>onbeforeremove\<close>, or the arrow function of a \<open>FadeIn\<close> that sets \<open>show\<close>.
\<close>

datatype TimerCallback = ResolvePromise nat | ShowFadeIn nat

text \<open>
  The promises created by \<open>onbeforeremove\<close> so far (resolved or not), the
  \<open>resolver\<close> field of the \<open>FadeContext\<close> (\<open>None\<close> is the no-op \<open>() => {}\<close>, \<open>Some p\<close> the
  \<open>res\<close> of promise \<open>p\<close>), the pending timers with their delays, the \<open>show\<close> field of each
  \<open>FadeIn\<close> created so far, and the outgoing calls.
\<close>

record FadeState =
  promises :: "bool list"
  resolver :: "nat option"
  timers :: "(TimerCallback \<times> nat) list"
  fadeInShow :: "bool list"
  fadeCalls :: "Call list"

definition fadeInit :: FadeState where
  "fadeInit = \<lparr>promises = [], resolver = None, timers = [], fadeInShow = [], fadeCalls = []\<rparr>"

text \<open>Calling \<open>res\<close> of promise \<open>p\<close>: it is resolved from then on.\<close>

definition callRes :: "nat \<Rightarrow> FadeState \<Rightarrow> FadeState" where
  "callRes p st = st\<lparr>promises := (promises st)[p := True]\<rparr>"

text \<open>\<open>FadeContext.putResolver\<close> and \<open>FadeContext.resolve\<close>.\<close>

definition putResolver :: "nat \<Rightarrow> FadeState \<Rightarrow> FadeState" where
  "putResolver p st = st\<lparr>resolver := Some p\<rparr>"

definition resolve :: "FadeState \<Rightarrow> FadeState" where
  "resolve st =
     (let st1 = (case resolver st of None \<Rightarrow> st | Some p \<Rightarrow> callRes p st)
      in st1\<lparr>resolver := None\<rparr>)"

text \<open>
  \<open>FadeOut.onbeforeremove\<close>: a new promise, its \<open>res\<close> stored in the context and given to
  \<open>setTimeout\<close>. The promise's position is returned with the state.
\<close>

definition FadeOut_onbeforeremove :: "FadeState \<Rightarrow> nat \<times> FadeState" where
  "FadeOut_onbeforeremove st =
     (let p = length (promises st);
          st1 = st\<lparr>promises := promises st @ [False]\<rparr>;
          st2 = putResolver p st1
      in (p, st2\<lparr>timers := timers st2 @ [(ResolvePromise p, FADE_TIME_MS)]\<rparr>))"

text \<open>\<open>FadeOut.oncreate\<close>.\<close>

definition FadeOut_oncreate :: "FadeState \<Rightarrow> FadeState" where
  "FadeOut_oncreate st = resolve st"

text \<open>\<open>FadeIn.oncreate\<close>, on a fresh \<open>FadeIn\<close> whose \<open>show\<close> is false.\<close>

definition FadeIn_oncreate :: "FadeState \<Rightarrow> FadeState" where
  "FadeIn_oncreate st =
     (let k = length (fadeInShow st)
      in st\<lparr>fadeInShow := fadeInShow st @ [False],
            timers := timers st @ [(ShowFadeIn k, FADE_TIME_MS)]\<rparr>)"

text \<open>The pending timer at position \<open>i\<close> fires: it leaves the list and its callback runs.\<close>

definition timerFires :: "nat \<Rightarrow> FadeState \<Rightarrow> FadeState" where
  "timerFires i st =
     (if i < length (timers st) then
        (let st1 = st\<lparr>timers := take i (timers st) @ drop (Suc i) (timers st)\<rparr>
         in case fst (timers st ! i) of
              ResolvePromise p \<Rightarrow> callRes p st1
            | ShowFadeIn k \<Rightarrow>
                st1\<lparr>fadeInShow := (fadeInShow st1)[k := True],
                    fadeCalls := fadeCalls st1 @ [ScheduleFullRedraw]\<rparr>)
      else st)"

datatype FadeEvent = FadeOutRemoved | FadeOutCreated | FadeInCreated | TimerFired nat

fun fadeStep :: "FadeState \<Rightarrow> FadeEvent \<Rightarrow> FadeState" where
  "fadeStep st FadeOutRemoved = snd (FadeOut_onbeforeremove st)"
| "fadeStep st FadeOutCreated = FadeOut_oncreate st"
| "fadeStep st FadeInCreated = FadeIn_oncreate st"
| "fadeStep st (TimerFired i) = timerFires i st"

fun fadeRun :: "FadeState \<Rightarrow> FadeEvent list \<Rightarrow> FadeState" where
  "fadeRun st [] = st"
| "fadeRun st (ev # evs) = fadeRun (fadeStep st ev) evs"

text \<open>Every promise that is not resolved yet still has its timer pending.\<close>

definition timersCover :: "FadeState \<Rightarrow> bool" where
  "timersCover st =
     list_all (\<lambda>p. promises st ! p \<or> (ResolvePromise p, FADE_TIME_MS) \<in> set (timers st))
       [0 ..< length (promises st)]"

section \<open>Example inputs\<close>

text \<open>
  A panel environment in which the header of the node with uri \<open>A\<close> is 20px high, that
  of \<open>B\<close> 15px, and every other panel 18px.
\<close>

definition examplePanelEnv :: "string PanelEnv" where
  "examplePanelEnv =
     \<lparr>getTrackRenderer = (\<lambda>u. u),
      heightPx = (\<lambda>p. if uri (node p) = Some ''A'' then 20
                      else if uri (node p) = Some ''B'' then 15 else 18)\<rparr>"

definition leafC :: TrackNode where
  "leafC = TrackNode (Some ''C'') False False False []"

definition groupB :: TrackNode where
  "groupB = TrackNode (Some ''B'') False False True [leafC]"

definition groupA :: TrackNode where
  "groupA = TrackNode (Some ''A'') False False True [groupB]"

text \<open>
  A collapsed group \<open>B\<close> over the tree \<open>A\<close> and the leaf \<open>C\<close>, and an expanded group
  \<open>A\<close> that holds that collapsed group one level down.
\<close>

definition collapsedB :: TrackNode where
  "collapsedB = TrackNode (Some ''B'') False True True [groupA, leafC]"

definition groupOverCollapsed :: TrackNode where
  "groupOverCollapsed = TrackNode (Some ''A'') False False True [collapsedB]"

text \<open>
  Modelled from the spec: the \<open>TimeScale\<close> class is not among the files; the spec gives
  \<open>px = left + (t - domainStart) * (right - left) / domainDuration\<close> and its inverse.
  The window is a pair (start, end) and a high-precision time a real number. The
  formula is meant for a window of positive duration and \<open>left < right\<close>; nothing below
  rests on a value it takes elsewhere.
\<close>

definition linearTimeScale :: "real \<times> real \<Rightarrow> real \<Rightarrow> real \<Rightarrow> real TimeScale" where
  "linearTimeScale win left right =
     \<lparr>timeToPx = (\<lambda>t. left + (real_of_int t - fst win) * (right - left) / (snd win - fst win)),
      pxToHpTime = (\<lambda>px. fst win + (px - left) * (snd win - fst win) / (right - left)),
      pxToDuration = (\<lambda>d. d * (snd win - fst win) / (right - left))\<rparr>"

text \<open>
  An example environment: shell width 20, device pixel ratio 1, the linear scale,
  \<open>toTime\<close> by floor unless \<open>'ceil'\<close> is asked for, a trace from 0 to 100, panning by
  translation and zooming around the given fraction of the window.
\<close>

definition exampleViewerEnv :: "(real \<times> real, real) ViewerEnv" where
  "exampleViewerEnv =
     \<lparr>TRACK_SHELL_WIDTH = 20, devicePixelRatio = 1, newTimeScale = linearTimeScale,
      toTime = (\<lambda>h m. case m of Some Ceil \<Rightarrow> \<lceil>h\<rceil> | _ \<Rightarrow> \<lfloor>h\<rfloor>),
      toTimeSpan = (\<lambda>win. (\<lfloor>fst win\<rfloor>, \<lceil>snd win\<rceil>)),
      traceInfoStart = 0, traceInfoEnd = 100,
      panVisibleWindow = (\<lambda>d win. (fst win + d, snd win + d)),
      zoomVisibleWindow = (\<lambda>r c win. case c of None \<Rightarrow> win
         | Some f \<Rightarrow> (fst win + (snd win - fst win) * (1 - r) * f,
                      fst win + (snd win - fst win) * (1 - r) * f + (snd win - fst win) * r)),
      defaultTrackUris = (\<lambda>a. case a of None \<Rightarrow> [] | Some x \<Rightarrow> trackUris x)\<rparr>"

text \<open>
  A viewer state with the given selection and timeline width, no in-progress area, the
  visible window from 0 to 100 and the flag unset.
\<close>

definition exampleState :: "Selection \<Rightarrow> real option \<Rightarrow> (real \<times> real) ViewerState" where
  "exampleState sel width =
     \<lparr>timelineWidthPx = width, keepCurrentSelection = False, selection = sel,
      selectedArea = None, areaYStart = None, areaYEnd = None,
      visibleWindow = (0, 100), calls = []\<rparr>"

definition area1050 :: Area where
  "area1050 = \<lparr>start = 10, endT = 50, trackUris = [''t1'']\<rparr>"

text \<open>
  A registry with one track \<open>t1\<close> whose details-panel factory names the panel after the
  selected event.
\<close>

definition exampleTabEnv :: "nat TabEnv" where
  "exampleTabEnv =
     \<lparr>getTrack = (\<lambda>u. if u = ''t1''
        then Some \<lparr>trackDetailsPanel =
               Some (\<lambda>sel. case sel of TrackEventSelection t e \<Rightarrow> Some e | _ \<Rightarrow> None)\<rparr>
        else None)\<rparr>"

text \<open>Two track events on the track \<open>t1\<close>.\<close>

definition eventX :: Selection where
  "eventX = TrackEventSelection ''t1'' 7"

definition eventY :: Selection where
  "eventY = TrackEventSelection ''t1'' 9"

section \<open>The panel tree compiler, step by step\<close>

text \<open>
  \<open>renderNodes\<close> is one equation over the whole list; these two unfold it on the empty
  list and on a first node.
\<close>

lemma renderNodes_Nil: "renderNodes env [] indent topPx = []"
  by (subst renderNodes.simps) simp

lemma renderNodes_Cons:
  "renderNodes env (n # ns) indent topPx =
     (if headless n then renderNodes env (children n) indent topPx
      else if children n = [] then [Panel (renderTrackPanel env n indent topPx)]
      else
        [Group (collapsed n) (renderTrackPanel env n indent topPx) (isSummary n) topPx
           (if collapsed n then []
            else renderNodes env (children n) (indent + 1)
                   (if isSummary n
                    then topPx + heightPx env (renderTrackPanel env n indent topPx)
                    else topPx))])
     @ renderNodes env ns indent topPx"
  by (subst renderNodes.simps, subst (3) renderNodes.simps) simp

section \<open>Boundary hit-test and the entry to editing\<close>

lemma onTimeRangeBoundary_flag:
  "onTimeRangeBoundary env (st\<lparr>keepCurrentSelection := b\<rparr>) ts m = onTimeRangeBoundary env st ts m"
  by (simp add: onTimeRangeBoundary_def split: Selection.split)

text \<open>
  C2. For an area selection whose boundaries lie at the pixel positions \<open>s\<close> and \<open>e\<close>,
  a mouse position \<open>m\<close>, the probe \<open>p = m - TRACK_SHELL_WIDTH\<close> and the threshold
  \<open>r = 3 * devicePixelRatio\<close>: the hit-test answers START when \<open>|s - p| < r\<close> and
  \<open>|s - p| \<le> |e - p|\<close>, otherwise END when \<open>|e - p| < r\<close> and \<open>|e - p| \<le> |s - p|\<close>,
  otherwise null. So START is the answer exactly when the start is within the threshold
  and at least as near as the end (a tie goes to START), END exactly when the end is
  within the threshold and strictly nearer, and null exactly when both distances reach
  the threshold; on null the drag that starts there is a fresh SELECTING drag.
\<close>

theorem boundary_hit_test:
  assumes "selection st = AreaSelection sel"
    and "area = (case selectedArea st of Some a \<Rightarrow> a | None \<Rightarrow> sel)"
    and "s = timeToPx ts (start area)"
    and "e = timeToPx ts (endT area)"
    and "p = m - TRACK_SHELL_WIDTH env"
    and "r = 3 * devicePixelRatio env"
  shows "onTimeRangeBoundary env st ts m =
           (if \<bar>s - p\<bar> < r \<and> \<bar>s - p\<bar> \<le> \<bar>e - p\<bar> then Some START
            else if \<bar>e - p\<bar> < r \<and> \<bar>e - p\<bar> \<le> \<bar>s - p\<bar> then Some END
            else None)
       \<and> (onTimeRangeBoundary env st ts m = Some START \<longleftrightarrow> \<bar>s - p\<bar> < r \<and> \<bar>s - p\<bar> \<le> \<bar>e - p\<bar>)
       \<and> (onTimeRangeBoundary env st ts m = Some END \<longleftrightarrow> \<bar>e - p\<bar> < r \<and> \<bar>e - p\<bar> < \<bar>s - p\<bar>)
       \<and> (onTimeRangeBoundary env st ts m = None \<longleftrightarrow> r \<le> \<bar>s - p\<bar> \<and> r \<le> \<bar>e - p\<bar>)
       \<and> (timelineWidthPx st = Some w \<and> ts = newTimeScale env (visibleWindow st) 0 w \<longrightarrow>
            dragStartState env st m =
              (if onTimeRangeBoundary env st ts m = None then SELECTING else EDITING_SELECTION))"
proof -
  have eq: "onTimeRangeBoundary env st ts m =
           (if \<bar>s - p\<bar> < r \<and> \<bar>s - p\<bar> \<le> \<bar>e - p\<bar> then Some START
            else if \<bar>e - p\<bar> < r \<and> \<bar>e - p\<bar> \<le> \<bar>s - p\<bar> then Some END
            else None)"
    using assms by (simp add: onTimeRangeBoundary_def Let_def)
  have st: "(onTimeRangeBoundary env st ts m = Some START) = (\<bar>s - p\<bar> < r \<and> \<bar>s - p\<bar> \<le> \<bar>e - p\<bar>)"
    unfolding eq by simp
  have en: "(onTimeRangeBoundary env st ts m = Some END) = (\<bar>e - p\<bar> < r \<and> \<bar>e - p\<bar> < \<bar>s - p\<bar>)"
    unfolding eq by auto
  have no: "(onTimeRangeBoundary env st ts m = None) = (r \<le> \<bar>s - p\<bar> \<and> r \<le> \<bar>e - p\<bar>)"
    unfolding eq by auto
  have dr: "timelineWidthPx st = Some w \<and> ts = newTimeScale env (visibleWindow st) 0 w \<longrightarrow>
            dragStartState env st m =
              (if onTimeRangeBoundary env st ts m = None then SELECTING else EDITING_SELECTION)"
    by (auto simp: dragStartState_def editSelection_def)
  from eq st en no dr show ?thesis by blast
qed

text \<open>
  The example of the spec: boundaries at pixels 10 and 50, threshold 3 (shell width 20,
  so the mouse is 20 further right than the probe). A probe at 12 hits START, one at 48
  hits END, one at 30 hits neither and the drag is a fresh selection.
\<close>

theorem boundary_hit_test_witness:
  "selection (exampleState (AreaSelection area1050) (Some 100)) = AreaSelection area1050
   \<and> timeToPx (linearTimeScale (0, 100) 0 100) (start area1050) = 10
   \<and> timeToPx (linearTimeScale (0, 100) 0 100) (endT area1050) = 50
   \<and> 3 * devicePixelRatio exampleViewerEnv = 3
   \<and> onTimeRangeBoundary exampleViewerEnv (exampleState (AreaSelection area1050) (Some 100))
        (linearTimeScale (0, 100) 0 100) (12 + 20) = Some START
   \<and> onTimeRangeBoundary exampleViewerEnv (exampleState (AreaSelection area1050) (Some 100))
        (linearTimeScale (0, 100) 0 100) (48 + 20) = Some END
   \<and> onTimeRangeBoundary exampleViewerEnv (exampleState (AreaSelection area1050) (Some 100))
        (linearTimeScale (0, 100) 0 100) (30 + 20) = None
   \<and> dragStartState exampleViewerEnv (exampleState (AreaSelection area1050) (Some 100)) (30 + 20)
        = SELECTING"
proof -
  have sel: "selection (exampleState (AreaSelection area1050) (Some 100)) = AreaSelection area1050"
    by (simp add: exampleState_def)
  have ar: "area1050 = (case selectedArea (exampleState (AreaSelection area1050) (Some 100)) of
                          Some a \<Rightarrow> a | None \<Rightarrow> area1050)"
    by (simp add: exampleState_def)
  have s: "(10::real) = timeToPx (linearTimeScale (0, 100) 0 100) (start area1050)"
    by (simp add: linearTimeScale_def area1050_def)
  have e: "(50::real) = timeToPx (linearTimeScale (0, 100) 0 100) (endT area1050)"
    by (simp add: linearTimeScale_def area1050_def)
  have r: "(3::real) = 3 * devicePixelRatio exampleViewerEnv"
    by (simp add: exampleViewerEnv_def)
  have p12: "(12::real) = (12 + 20) - TRACK_SHELL_WIDTH exampleViewerEnv"
    and p48: "(48::real) = (48 + 20) - TRACK_SHELL_WIDTH exampleViewerEnv"
    and p30: "(30::real) = (30 + 20) - TRACK_SHELL_WIDTH exampleViewerEnv"
    by (simp_all add: exampleViewerEnv_def)
  have w: "timelineWidthPx (exampleState (AreaSelection area1050) (Some 100)) = Some 100
        \<and> linearTimeScale (0, 100) 0 100 = newTimeScale exampleViewerEnv
            (visibleWindow (exampleState (AreaSelection area1050) (Some 100))) 0 100"
    by (simp add: exampleState_def exampleViewerEnv_def)
  note a = boundary_hit_test [OF sel ar s e p12 r, of 100]
  note b = boundary_hit_test [OF sel ar s e p48 r, of 100]
  note c = boundary_hit_test [OF sel ar s e p30 r, of 100]
  from a b c w sel s e r show ?thesis by simp
qed

text \<open>
  C10. Whenever the current selection is not of kind \<open>'area'\<close>, \<open>onTimeRangeBoundary\<close>
  answers null and \<open>editSelection\<close> answers false, so the drag that starts there is a
  fresh SELECTING drag; a drag enters EDITING_SELECTION only when the current selection
  is an area selection.
\<close>

theorem non_area_selection_never_edits:
  "((\<forall>a. selection st \<noteq> AreaSelection a) \<longrightarrow>
       onTimeRangeBoundary env st ts m = None
     \<and> \<not> editSelection env st x
     \<and> dragStartState env st x = SELECTING)
   \<and> (dragStartState env st x = EDITING_SELECTION \<longrightarrow> (\<exists>a. selection st = AreaSelection a))"
proof -
  have a: "onTimeRangeBoundary env st ts' m' = None"
    if "\<forall>a. selection st \<noteq> AreaSelection a" for ts' m'
    using that by (cases "selection st") (simp_all add: onTimeRangeBoundary_def)
  have b: "\<not> editSelection env st x" if "\<forall>a. selection st \<noteq> AreaSelection a"
    using a [OF that] by (simp add: editSelection_def split: option.splits)
  have c: "dragStartState env st x = SELECTING" if "\<forall>a. selection st \<noteq> AreaSelection a"
    using b [OF that] by (simp add: dragStartState_def)
  have d: "\<exists>a. selection st = AreaSelection a" if "dragStartState env st x = EDITING_SELECTION"
  proof (rule ccontr)
    assume "\<not> (\<exists>a. selection st = AreaSelection a)"
    then have "\<forall>a. selection st \<noteq> AreaSelection a" by simp
    from c [OF this] that show False by simp
  qed
  from a b c d show ?thesis by blast
qed

text \<open>
  With a track selected, a drag at any position begins a fresh selection; with the area
  from 10 to 50 selected, a drag that starts on its left boundary edits it.
\<close>

theorem non_area_selection_never_edits_witness:
  "(\<forall>a. selection (exampleState (TrackSelection ''t1'') (Some 100)) \<noteq> AreaSelection a)
   \<and> onTimeRangeBoundary exampleViewerEnv (exampleState (TrackSelection ''t1'') (Some 100))
        (linearTimeScale (0, 100) 0 100) 30 = None
   \<and> \<not> editSelection exampleViewerEnv (exampleState (TrackSelection ''t1'') (Some 100)) 30
   \<and> dragStartState exampleViewerEnv (exampleState (TrackSelection ''t1'') (Some 100)) 30
        = SELECTING
   \<and> dragStartState exampleViewerEnv (exampleState (AreaSelection area1050) (Some 100)) 30
        = EDITING_SELECTION
   \<and> (\<exists>a. selection (exampleState (AreaSelection area1050) (Some 100)) = AreaSelection a)"
proof -
  have h: "\<forall>a. selection (exampleState (TrackSelection ''t1'') (Some 100)) \<noteq> AreaSelection a"
    by (simp add: exampleState_def)
  have k: "dragStartState exampleViewerEnv (exampleState (AreaSelection area1050) (Some 100)) 30
        = EDITING_SELECTION"
    by (simp add: dragStartState_def editSelection_def onTimeRangeBoundary_def exampleState_def
        exampleViewerEnv_def linearTimeScale_def area1050_def)
  note a = non_area_selection_never_edits
    [of "exampleState (TrackSelection ''t1'') (Some 100)" exampleViewerEnv
        "linearTimeScale (0, 100) 0 100" 30 30]
  note b = non_area_selection_never_edits
    [of "exampleState (AreaSelection area1050) (Some 100)" exampleViewerEnv
        "linearTimeScale (0, 100) 0 100" 30 30]
  from h k a b show ?thesis by blast
qed

section \<open>Drag selection\<close>

lemma clamp_within: "lower \<le> upper \<Longrightarrow> lower \<le> clamp v lower upper \<and> clamp v lower upper \<le> upper"
  by (simp add: clamp_def)

text \<open>
  C3, as the code has it. With a defined timeline width \<open>w\<close>, a fresh (non-editing)
  drag computes \<open>startPx = min(dragStartX, currentX) - TRACK_SHELL_WIDTH\<close> and
  \<open>endPx = max(dragStartX, currentX) - TRACK_SHELL_WIDTH\<close>. It is discarded, leaving
  the selection and the timeline as they were, when both are negative, that is, left of
  the viewport. In every other case, also when both lie right of the viewport, both are
  clamped to \<open>[0, w]\<close> and the in-progress area becomes
  \<open>[pxToHpTime(startPx).toTime('floor'), pxToHpTime(endPx).toTime('ceil')]\<close>. With
  \<open>dragStartX = 100\<close>, \<open>currentX = 40\<close>, shell width 20 and a width of at least 80 the
  area is \<open>[pxToTime(20, 'floor'), pxToTime(80, 'ceil')]\<close>.
\<close>

theorem fresh_selection_drag:
  assumes "timelineWidthPx st = Some w"
    and "startPx = min dragStartX currentX - TRACK_SHELL_WIDTH env"
    and "endPx = max dragStartX currentX - TRACK_SHELL_WIDTH env"
    and "ts = newTimeScale env (visibleWindow st) 0 w"
  shows "(startPx < 0 \<and> endPx < 0 \<longrightarrow>
            onSelection env st dragStartX dragStartY prevX currentX currentY False
              = st\<lparr>keepCurrentSelection := True\<rparr>)
       \<and> (\<not> (startPx < 0 \<and> endPx < 0) \<longrightarrow>
            selectedArea (onSelection env st dragStartX dragStartY prevX currentX currentY False)
              = Some \<lparr>start = toTime env (pxToHpTime ts (clamp startPx 0 w)) (Some Floor),
                      endT = toTime env (pxToHpTime ts (clamp endPx 0 w)) (Some Ceil),
                      trackUris = defaultTrackUris env (selectedArea st)\<rparr>
          \<and> selection (onSelection env st dragStartX dragStartY prevX currentX currentY False)
              = selection st)
       \<and> (0 \<le> w \<longrightarrow> 0 \<le> clamp startPx 0 w \<and> clamp startPx 0 w \<le> w
                    \<and> 0 \<le> clamp endPx 0 w \<and> clamp endPx 0 w \<le> w)
       \<and> (dragStartX = 100 \<and> currentX = 40 \<and> TRACK_SHELL_WIDTH env = 20 \<and> 80 \<le> w \<longrightarrow>
            selectedArea (onSelection env st dragStartX dragStartY prevX currentX currentY False)
              = Some \<lparr>start = toTime env (pxToHpTime ts 20) (Some Floor),
                      endT = toTime env (pxToHpTime ts 80) (Some Ceil),
                      trackUris = defaultTrackUris env (selectedArea st)\<rparr>)"
proof -
  have a: "startPx < 0 \<and> endPx < 0 \<longrightarrow>
            onSelection env st dragStartX dragStartY prevX currentX currentY False
              = st\<lparr>keepCurrentSelection := True\<rparr>"
    using assms by (simp add: onSelection_def Let_def)
  have b: "\<not> (startPx < 0 \<and> endPx < 0) \<longrightarrow>
            selectedArea (onSelection env st dragStartX dragStartY prevX currentX currentY False)
              = Some \<lparr>start = toTime env (pxToHpTime ts (clamp startPx 0 w)) (Some Floor),
                      endT = toTime env (pxToHpTime ts (clamp endPx 0 w)) (Some Ceil),
                      trackUris = defaultTrackUris env (selectedArea st)\<rparr>
          \<and> selection (onSelection env st dragStartX dragStartY prevX currentX currentY False)
              = selection st"
    using assms by (auto simp: onSelection_def Let_def timelineSelectArea_def)
  have c: "0 \<le> w \<longrightarrow> 0 \<le> clamp startPx 0 w \<and> clamp startPx 0 w \<le> w
                    \<and> 0 \<le> clamp endPx 0 w \<and> clamp endPx 0 w \<le> w"
    by (simp add: clamp_def)
  have d: "dragStartX = 100 \<and> currentX = 40 \<and> TRACK_SHELL_WIDTH env = 20 \<and> 80 \<le> w \<longrightarrow>
            selectedArea (onSelection env st dragStartX dragStartY prevX currentX currentY False)
              = Some \<lparr>start = toTime env (pxToHpTime ts 20) (Some Floor),
                      endT = toTime env (pxToHpTime ts 80) (Some Ceil),
                      trackUris = defaultTrackUris env (selectedArea st)\<rparr>"
  proof
    assume h: "dragStartX = 100 \<and> currentX = 40 \<and> TRACK_SHELL_WIDTH env = 20 \<and> 80 \<le> w"
    with assms have s: "startPx = 20" and e: "endPx = 80" by simp_all
    from h s e have "clamp startPx 0 w = 20" "clamp endPx 0 w = 80"
      by (simp_all add: clamp_def)
    with b s e show "selectedArea (onSelection env st dragStartX dragStartY prevX currentX currentY False)
              = Some \<lparr>start = toTime env (pxToHpTime ts 20) (Some Floor),
                      endT = toTime env (pxToHpTime ts 80) (Some Ceil),
                      trackUris = defaultTrackUris env (selectedArea st)\<rparr>"
      by simp
  qed
  from a b c d show ?thesis by blast
qed

text \<open>
  On the example environment (identity scale on \<open>[0, 100]\<close>): the drag from 100 to 40
  selects \<open>[20, 80]\<close>; a drag from 15 to 3, wholly inside the shell, is discarded.
\<close>

theorem fresh_selection_drag_witness:
  "timelineWidthPx (exampleState EmptySelection (Some 100)) = Some 100
   \<and> min 100 40 - TRACK_SHELL_WIDTH exampleViewerEnv = (20::real)
   \<and> max 100 40 - TRACK_SHELL_WIDTH exampleViewerEnv = (80::real)
   \<and> selectedArea (onSelection exampleViewerEnv (exampleState EmptySelection (Some 100))
        100 5 100 40 9 False)
       = Some \<lparr>start = 20, endT = 80, trackUris = []\<rparr>
   \<and> onSelection exampleViewerEnv (exampleState EmptySelection (Some 100)) 15 5 15 3 9 False
       = (exampleState EmptySelection (Some 100))\<lparr>keepCurrentSelection := True\<rparr>"
proof -
  let ?st = "exampleState EmptySelection (Some 100)"
  have w: "timelineWidthPx ?st = Some 100" by (simp add: exampleState_def)
  have s1: "(20::real) = min 100 40 - TRACK_SHELL_WIDTH exampleViewerEnv"
    and e1: "(80::real) = max 100 40 - TRACK_SHELL_WIDTH exampleViewerEnv"
    and s2: "(- 17::real) = min 15 3 - TRACK_SHELL_WIDTH exampleViewerEnv"
    and e2: "(- 5::real) = max 15 3 - TRACK_SHELL_WIDTH exampleViewerEnv"
    by (simp_all add: exampleViewerEnv_def)
  note t1 = fresh_selection_drag [OF w s1 e1 refl, where dragStartY = 5 and prevX = 100 and currentY = 9]
  note t2 = fresh_selection_drag [OF w s2 e2 refl, where dragStartY = 5 and prevX = 15 and currentY = 9]
  have v: "toTime exampleViewerEnv
             (pxToHpTime (newTimeScale exampleViewerEnv (visibleWindow ?st) 0 100) 20) (Some Floor) = 20"
     "toTime exampleViewerEnv
             (pxToHpTime (newTimeScale exampleViewerEnv (visibleWindow ?st) 0 100) 80) (Some Ceil) = 80"
     "defaultTrackUris exampleViewerEnv (selectedArea ?st) = []"
     "TRACK_SHELL_WIDTH exampleViewerEnv = 20"
    by (simp_all add: exampleViewerEnv_def exampleState_def linearTimeScale_def)
  from t1 v have r1: "selectedArea (onSelection exampleViewerEnv ?st 100 5 100 40 9 False)
       = Some \<lparr>start = 20, endT = 80, trackUris = []\<rparr>"
    by (simp add: clamp_def)
  from t2 have r2: "onSelection exampleViewerEnv ?st 15 5 15 3 9 False = ?st\<lparr>keepCurrentSelection := True\<rparr>"
    by simp
  from w s1 e1 r1 r2 show ?thesis by simp
qed

text \<open>
  C3 as stated fails: a drag from 150 to 200 with shell width 20 and timeline width 100
  has both bounds (130 and 180) outside the viewport, yet it is not discarded; both are
  clamped to 100 and the area \<open>[100, 100]\<close> is selected. And with a timeline only 50
  wide, the drag from 100 to 40 ends at the clamped pixel 50 (time 100), not at
  \<open>pxToTime(80, 'ceil')\<close> (time 160).
\<close>

theorem fresh_selection_right_of_viewport_counterexample:
  "timelineWidthPx (exampleState EmptySelection (Some 100)) = Some 100
   \<and> (100::real) < min 150 200 - TRACK_SHELL_WIDTH exampleViewerEnv
   \<and> (100::real) < max 150 200 - TRACK_SHELL_WIDTH exampleViewerEnv
   \<and> selectedArea (exampleState EmptySelection (Some 100)) = None
   \<and> selectedArea (onSelection exampleViewerEnv (exampleState EmptySelection (Some 100))
        150 5 150 200 9 False)
       = Some \<lparr>start = 100, endT = 100, trackUris = []\<rparr>
   \<and> selectedArea (onSelection exampleViewerEnv (exampleState EmptySelection (Some 50))
        100 5 100 40 9 False)
       = Some \<lparr>start = 40, endT = 100, trackUris = []\<rparr>
   \<and> toTime exampleViewerEnv (pxToHpTime (linearTimeScale (0, 100) 0 50) 20) (Some Floor) = 40
   \<and> toTime exampleViewerEnv (pxToHpTime (linearTimeScale (0, 100) 0 50) 80) (Some Ceil) = 160"
  by (simp add: onSelection_def exampleViewerEnv_def exampleState_def linearTimeScale_def
      clamp_def timelineSelectArea_def Let_def)

section \<open>Editing a boundary of the selected area\<close>

text \<open>
  The editing branch of \<open>onSelection\<close> when the hit-test at \<open>prevX\<close> finds a
  boundary, with every local of the source written out.
\<close>

lemma onSelection_editing:
  assumes w: "timelineWidthPx st = Some w"
    and sel: "selection st = AreaSelection sel"
    and b: "onTimeRangeBoundary env st (newTimeScale env (visibleWindow st) 0 w) prevX = Some b"
  shows "onSelection env st dragStartX dragStartY prevX currentX currentY True =
     (timelineSelectArea env
        (max (min (if b = START then endT (case selectedArea st of Some a \<Rightarrow> a | None \<Rightarrow> sel)
                   else start (case selectedArea st of Some a \<Rightarrow> a | None \<Rightarrow> sel))
                (if toTime env (pxToHpTime (newTimeScale env (visibleWindow st) 0 w) (currentX - TRACK_SHELL_WIDTH env)) None
                     < (if b = START then endT (case selectedArea st of Some a \<Rightarrow> a | None \<Rightarrow> sel)
                   else start (case selectedArea st of Some a \<Rightarrow> a | None \<Rightarrow> sel))
                 then max (toTime env (pxToHpTime (newTimeScale env (visibleWindow st) 0 w) (currentX - TRACK_SHELL_WIDTH env)) None)
                        (fst (toTimeSpan env (visibleWindow st)))
                 else min (toTime env (pxToHpTime (newTimeScale env (visibleWindow st) 0 w) (currentX - TRACK_SHELL_WIDTH env)) None)
                        (snd (toTimeSpan env (visibleWindow st))))) (traceInfoStart env))
        (min (max (if b = START then endT (case selectedArea st of Some a \<Rightarrow> a | None \<Rightarrow> sel)
                   else start (case selectedArea st of Some a \<Rightarrow> a | None \<Rightarrow> sel))
                (if toTime env (pxToHpTime (newTimeScale env (visibleWindow st) 0 w) (currentX - TRACK_SHELL_WIDTH env)) None
                     < (if b = START then endT (case selectedArea st of Some a \<Rightarrow> a | None \<Rightarrow> sel)
                   else start (case selectedArea st of Some a \<Rightarrow> a | None \<Rightarrow> sel))
                 then max (toTime env (pxToHpTime (newTimeScale env (visibleWindow st) 0 w) (currentX - TRACK_SHELL_WIDTH env)) None)
                        (fst (toTimeSpan env (visibleWindow st)))
                 else min (toTime env (pxToHpTime (newTimeScale env (visibleWindow st) 0 w) (currentX - TRACK_SHELL_WIDTH env)) None)
                        (snd (toTimeSpan env (visibleWindow st))))) (traceInfoEnd env))
        (Some (trackUris sel)) (st\<lparr>keepCurrentSelection := True\<rparr>))
     \<lparr>calls := calls st @ [ScheduleRedraw]\<rparr>"
  unfolding onSelection_def Let_def
  by (simp add: w sel b onTimeRangeBoundary_flag timelineSelectArea_def
      split del: if_split cong del: if_weak_cong)

text \<open>
  C4. During an editing drag over an area selection, the boundary that moves is the one
  the hit-test finds at the previous pointer position \<open>prevX\<close>, not at the current
  one; when it finds none, the callback leaves the selection and the timeline as they
  were (it only sets the keep-current-selection flag). Otherwise the other boundary is
  the kept one, and the moving boundary follows the pointer, held inside the visible
  window on the side it moves to. An area selection lies within the trace, so the kept
  boundary is within the trace bounds; then the new area has the kept boundary at its
  exact time value, has the moving boundary clamped to the trace bounds, lies within
  them with \<open>start \<le> end\<close> (so the next editing drag starts from such an area
  again), and keeps the selection's tracks.
\<close>

theorem editing_keeps_other_boundary:
  assumes w: "timelineWidthPx st = Some w"
    and sel: "selection st = AreaSelection sel"
    and area: "area = (case selectedArea st of Some a \<Rightarrow> a | None \<Rightarrow> sel)"
    and ts: "ts = newTimeScale env (visibleWindow st) 0 w"
    and newTime: "newTime = toTime env (pxToHpTime ts (currentX - TRACK_SHELL_WIDTH env)) None"
    and res: "res = onSelection env st dragStartX dragStartY prevX currentX currentY True"
  shows "(onTimeRangeBoundary env st ts prevX = None \<longrightarrow> res = st\<lparr>keepCurrentSelection := True\<rparr>)
       \<and> (\<forall>b keepTime moved.
            onTimeRangeBoundary env st ts prevX = Some b
          \<and> keepTime = (if b = START then endT area else start area)
          \<and> moved = (if newTime < keepTime then max newTime (fst (toTimeSpan env (visibleWindow st)))
                      else min newTime (snd (toTimeSpan env (visibleWindow st))))
          \<and> traceInfoStart env \<le> keepTime \<and> keepTime \<le> traceInfoEnd env
          \<longrightarrow> (\<exists>a. selectedArea res = Some a
                  \<and> trackUris a = trackUris sel
                  \<and> traceInfoStart env \<le> start a \<and> start a \<le> endT a
                  \<and> endT a \<le> traceInfoEnd env
                  \<and> (if moved \<le> keepTime
                      then start a = max moved (traceInfoStart env) \<and> endT a = keepTime
                      else start a = keepTime \<and> endT a = min moved (traceInfoEnd env)))
              \<and> selection res = selection st)"
proof -
  have none: "onTimeRangeBoundary env st ts prevX = None \<longrightarrow> res = st\<lparr>keepCurrentSelection := True\<rparr>"
    using w sel ts res by (simp add: onSelection_def Let_def onTimeRangeBoundary_flag)
  have some: "(\<exists>a. selectedArea res = Some a
                  \<and> trackUris a = trackUris sel
                  \<and> traceInfoStart env \<le> start a \<and> start a \<le> endT a
                  \<and> endT a \<le> traceInfoEnd env
                  \<and> (if moved \<le> keepTime
                      then start a = max moved (traceInfoStart env) \<and> endT a = keepTime
                      else start a = keepTime \<and> endT a = min moved (traceInfoEnd env)))
              \<and> selection res = selection st"
    if b: "onTimeRangeBoundary env st ts prevX = Some b"
      and k: "keepTime = (if b = START then endT area else start area)"
      and m: "moved = (if newTime < keepTime then max newTime (fst (toTimeSpan env (visibleWindow st)))
                      else min newTime (snd (toTimeSpan env (visibleWindow st))))"
      and lo: "traceInfoStart env \<le> keepTime" and hi: "keepTime \<le> traceInfoEnd env"
    for b keepTime moved
  proof -
    have r: "res = (timelineSelectArea env
                      (max (min keepTime moved) (traceInfoStart env))
                      (min (max keepTime moved) (traceInfoEnd env))
                      (Some (trackUris sel)) (st\<lparr>keepCurrentSelection := True\<rparr>))
                   \<lparr>calls := calls st @ [ScheduleRedraw]\<rparr>"
      unfolding res m k newTime area ts
      by (rule onSelection_editing [OF w sel b [unfolded ts]])
    have sa: "selectedArea res = Some \<lparr>start = max (min keepTime moved) (traceInfoStart env),
                 endT = min (max keepTime moved) (traceInfoEnd env), trackUris = trackUris sel\<rparr>"
      unfolding r by (simp add: timelineSelectArea_def)
    have se: "selection res = selection st"
      unfolding r by (simp add: timelineSelectArea_def)
    from lo hi have
      "traceInfoStart env \<le> max (min keepTime moved) (traceInfoStart env)"
      "max (min keepTime moved) (traceInfoStart env) \<le> min (max keepTime moved) (traceInfoEnd env)"
      "min (max keepTime moved) (traceInfoEnd env) \<le> traceInfoEnd env"
      "moved \<le> keepTime \<Longrightarrow> max (min keepTime moved) (traceInfoStart env) = max moved (traceInfoStart env)
          \<and> min (max keepTime moved) (traceInfoEnd env) = keepTime"
      "\<not> moved \<le> keepTime \<Longrightarrow> max (min keepTime moved) (traceInfoStart env) = keepTime
          \<and> min (max keepTime moved) (traceInfoEnd env) = min moved (traceInfoEnd env)"
      by auto
    with sa se show ?thesis by simp
  qed
  from none some show ?thesis by blast
qed

text \<open>
  On the example environment, with the area \<open>[10, 50]\<close> selected: the previous pointer
  position 30 is on the start boundary although the current one, 45, is on neither; the
  start moves to 25 and the end stays 50. With the previous position at 45 nothing but
  the flag changes.
\<close>

theorem editing_keeps_other_boundary_witness:
  "timelineWidthPx (exampleState (AreaSelection area1050) (Some 100)) = Some 100
   \<and> selection (exampleState (AreaSelection area1050) (Some 100)) = AreaSelection area1050
   \<and> onTimeRangeBoundary exampleViewerEnv (exampleState (AreaSelection area1050) (Some 100))
        (linearTimeScale (0, 100) 0 100) 30 = Some START
   \<and> onTimeRangeBoundary exampleViewerEnv (exampleState (AreaSelection area1050) (Some 100))
        (linearTimeScale (0, 100) 0 100) 45 = None
   \<and> traceInfoStart exampleViewerEnv \<le> endT area1050
   \<and> endT area1050 \<le> traceInfoEnd exampleViewerEnv
   \<and> selectedArea (onSelection exampleViewerEnv (exampleState (AreaSelection area1050) (Some 100))
        30 5 30 45 9 True)
       = Some \<lparr>start = 25, endT = 50, trackUris = [''t1'']\<rparr>
   \<and> onSelection exampleViewerEnv (exampleState (AreaSelection area1050) (Some 100))
        30 5 45 60 9 True
       = (exampleState (AreaSelection area1050) (Some 100))\<lparr>keepCurrentSelection := True\<rparr>"
proof -
  let ?st = "exampleState (AreaSelection area1050) (Some 100)"
  let ?ts = "linearTimeScale (0, 100) 0 100"
  have w: "timelineWidthPx ?st = Some 100" by (simp add: exampleState_def)
  have sel: "selection ?st = AreaSelection area1050" by (simp add: exampleState_def)
  have area: "area1050 = (case selectedArea ?st of Some a \<Rightarrow> a | None \<Rightarrow> area1050)"
    by (simp add: exampleState_def)
  have ts: "?ts = newTimeScale exampleViewerEnv (visibleWindow ?st) 0 100"
    by (simp add: exampleState_def exampleViewerEnv_def)
  have n1: "(25::int) = toTime exampleViewerEnv (pxToHpTime ?ts (45 - TRACK_SHELL_WIDTH exampleViewerEnv)) None"
    by (simp add: exampleViewerEnv_def linearTimeScale_def)
  have n2: "(40::int) = toTime exampleViewerEnv (pxToHpTime ?ts (60 - TRACK_SHELL_WIDTH exampleViewerEnv)) None"
    by (simp add: exampleViewerEnv_def linearTimeScale_def)
  have b1: "onTimeRangeBoundary exampleViewerEnv ?st ?ts 30 = Some START"
    by (simp add: onTimeRangeBoundary_def exampleViewerEnv_def exampleState_def
        linearTimeScale_def area1050_def)
  have b2: "onTimeRangeBoundary exampleViewerEnv ?st ?ts 45 = None"
    by (simp add: onTimeRangeBoundary_def exampleViewerEnv_def exampleState_def
        linearTimeScale_def area1050_def)
  have span: "toTimeSpan exampleViewerEnv (visibleWindow ?st) = (0, 100)"
    by (simp add: exampleViewerEnv_def exampleState_def)
  have tr: "traceInfoStart exampleViewerEnv = 0" "traceInfoEnd exampleViewerEnv = 100"
    by (simp_all add: exampleViewerEnv_def)
  have ar: "start area1050 = 10" "endT area1050 = 50" "trackUris area1050 = [''t1'']"
    by (simp_all add: area1050_def)
  note t1 = editing_keeps_other_boundary [OF w sel area ts n1 refl, where dragStartX = 30 and dragStartY = 5 and prevX = 30 and currentY = 9]
  note t2 = editing_keeps_other_boundary [OF w sel area ts n2 refl, where dragStartX = 30 and dragStartY = 5 and prevX = 45 and currentY = 9]
  from t1 b1 have
    "\<exists>a. selectedArea (onSelection exampleViewerEnv ?st 30 5 30 45 9 True) = Some a
        \<and> trackUris a = [''t1''] \<and> start a = 25 \<and> endT a = 50"
    by (auto simp: span tr ar)
  then have r1: "selectedArea (onSelection exampleViewerEnv ?st 30 5 30 45 9 True)
       = Some \<lparr>start = 25, endT = 50, trackUris = [''t1'']\<rparr>"
    by auto
  from t2 b2 have r2: "onSelection exampleViewerEnv ?st 30 5 45 60 9 True
       = ?st\<lparr>keepCurrentSelection := True\<rparr>"
    by simp
  from w sel b1 b2 r1 r2 tr ar show ?thesis by simp
qed

section \<open>Callbacks before the layout is measured\<close>

lemma endSelection_flag: "keepCurrentSelection (endSelection st edit) = keepCurrentSelection st"
  by (simp add: endSelection_def Let_def timelineDeselectArea_def selectionSelectArea_def
      split: Selection.split option.split)

lemma onSelection_flag:
  "timelineWidthPx st = Some w \<Longrightarrow> keepCurrentSelection (onSelection env st a b c d e ed)"
  by (simp add: onSelection_def Let_def timelineSelectArea_def
      split: Selection.split option.split)

text \<open>
  C5, as the code has it. While the timeline width is undefined, \<open>onPanned\<close> and
  \<open>onSelection\<close> return the state unchanged and \<open>editSelection\<close> answers false.
  A width of zero is a defined width and passes that guard: \<open>onPanned\<close> and
  \<open>onSelection\<close> then still set the keep-current-selection flag, which they do
  before they build the time scale. \<open>onZoomed\<close> does not read the timeline width: it
  always rescales the visible window, around
  \<open>(zoomedPositionPx - TRACK_SHELL_WIDTH) / (rect.width - TRACK_SHELL_WIDTH)\<close>, and
  schedules a redraw.
\<close>

theorem undefined_width_is_noop:
  "(timelineWidthPx st = None \<longrightarrow>
        onPanned env st pannedPx = st
      \<and> onSelection env st dragStartX dragStartY prevX currentX currentY editing = st
      \<and> \<not> editSelection env st currentPx)
   \<and> (timelineWidthPx st = Some 0 \<longrightarrow>
        keepCurrentSelection (onPanned env st pannedPx)
      \<and> keepCurrentSelection
           (onSelection env st dragStartX dragStartY prevX currentX currentY editing))
   \<and> visibleWindow (onZoomed env rectWidth st zoomedPositionPx zoomRatio)
       = zoomVisibleWindow env (1 - zoomRatio)
           (jsDivide (zoomedPositionPx - TRACK_SHELL_WIDTH env) (rectWidth - TRACK_SHELL_WIDTH env))
           (visibleWindow st)
   \<and> calls (onZoomed env rectWidth st zoomedPositionPx zoomRatio) = calls st @ [ScheduleRedraw]"
proof -
  have a: "timelineWidthPx st = None \<longrightarrow>
        onPanned env st pannedPx = st
      \<and> onSelection env st dragStartX dragStartY prevX currentX currentY editing = st
      \<and> \<not> editSelection env st currentPx"
    by (simp add: onPanned_def onSelection_def editSelection_def)
  have b: "timelineWidthPx st = Some 0 \<longrightarrow>
        keepCurrentSelection (onPanned env st pannedPx)
      \<and> keepCurrentSelection
           (onSelection env st dragStartX dragStartY prevX currentX currentY editing)"
    by (simp add: onPanned_def Let_def onSelection_flag)
  have c: "visibleWindow (onZoomed env rectWidth st zoomedPositionPx zoomRatio)
       = zoomVisibleWindow env (1 - zoomRatio)
           (jsDivide (zoomedPositionPx - TRACK_SHELL_WIDTH env) (rectWidth - TRACK_SHELL_WIDTH env))
           (visibleWindow st)
     \<and> calls (onZoomed env rectWidth st zoomedPositionPx zoomRatio) = calls st @ [ScheduleRedraw]"
    by (simp add: onZoomed_def Let_def)
  from a b c show ?thesis by blast
qed

text \<open>
  On the example environment with the area \<open>[10, 50]\<close> selected: with the width
  undefined nothing changes; with the width zero the pan and both kinds of drag set the
  flag.
\<close>

theorem undefined_width_is_noop_witness:
  "timelineWidthPx (exampleState (AreaSelection area1050) None) = None
   \<and> onPanned exampleViewerEnv (exampleState (AreaSelection area1050) None) 7
       = exampleState (AreaSelection area1050) None
   \<and> onSelection exampleViewerEnv (exampleState (AreaSelection area1050) None) 100 5 100 40 9 False
       = exampleState (AreaSelection area1050) None
   \<and> onSelection exampleViewerEnv (exampleState (AreaSelection area1050) None) 30 5 30 40 9 True
       = exampleState (AreaSelection area1050) None
   \<and> \<not> editSelection exampleViewerEnv (exampleState (AreaSelection area1050) None) 30
   \<and> timelineWidthPx (exampleState (AreaSelection area1050) (Some 0)) = Some 0
   \<and> keepCurrentSelection (onPanned exampleViewerEnv
        (exampleState (AreaSelection area1050) (Some 0)) 7)
   \<and> keepCurrentSelection (onSelection exampleViewerEnv
        (exampleState (AreaSelection area1050) (Some 0)) 100 5 100 40 9 False)
   \<and> keepCurrentSelection (onSelection exampleViewerEnv
        (exampleState (AreaSelection area1050) (Some 0)) 30 5 30 40 9 True)"
proof -
  let ?st = "exampleState (AreaSelection area1050) None"
  let ?z = "exampleState (AreaSelection area1050) (Some 0)"
  have w: "timelineWidthPx ?st = None" by (simp add: exampleState_def)
  have z: "timelineWidthPx ?z = Some 0" by (simp add: exampleState_def)
  note a = undefined_width_is_noop [where st = ?st and env = exampleViewerEnv and pannedPx = 7 and dragStartX = 100 and dragStartY = 5 and prevX = 100 and currentX = 40 and currentY = 9 and editing = False and currentPx = 30]
  note b = undefined_width_is_noop [where st = ?st and env = exampleViewerEnv and pannedPx = 7 and dragStartX = 30 and dragStartY = 5 and prevX = 30 and currentX = 40 and currentY = 9 and editing = True and currentPx = 30]
  note c = undefined_width_is_noop [where st = ?z and env = exampleViewerEnv and pannedPx = 7 and dragStartX = 100 and dragStartY = 5 and prevX = 100 and currentX = 40 and currentY = 9 and editing = False and currentPx = 30]
  note d = undefined_width_is_noop [where st = ?z and env = exampleViewerEnv and pannedPx = 7 and dragStartX = 30 and dragStartY = 5 and prevX = 30 and currentX = 40 and currentY = 9 and editing = True and currentPx = 30]
  from w z a b c d show ?thesis by simp
qed

text \<open>
  C5 as stated fails twice. A width of zero is a defined width: the pan callback and
  the selection callback then set the keep-current-selection flag, so they are not
  no-ops. And with the width undefined, \<open>onZoomed\<close> still zooms: the window
  \<open>(0, 100)\<close> becomes \<open>(25, 75)\<close>.
\<close>

theorem zero_or_undefined_width_counterexample:
  "timelineWidthPx (exampleState EmptySelection (Some 0)) = Some 0
   \<and> \<not> keepCurrentSelection (exampleState EmptySelection (Some 0))
   \<and> keepCurrentSelection (onPanned exampleViewerEnv (exampleState EmptySelection (Some 0)) 7)
   \<and> keepCurrentSelection (onSelection exampleViewerEnv (exampleState EmptySelection (Some 0))
        100 5 100 40 9 False)
   \<and> timelineWidthPx (exampleState EmptySelection None) = None
   \<and> visibleWindow (exampleState EmptySelection None) = (0, 100)
   \<and> visibleWindow (onZoomed exampleViewerEnv 1020 (exampleState EmptySelection None) 520 (1 / 2))
       = (25, 75)"
proof -
  have z: "timelineWidthPx (exampleState EmptySelection (Some 0)) = Some 0"
    "\<not> keepCurrentSelection (exampleState EmptySelection (Some 0))"
    by (simp_all add: exampleState_def)
  have p: "keepCurrentSelection (onPanned exampleViewerEnv (exampleState EmptySelection (Some 0)) 7)"
    using z(1) by (simp add: onPanned_def Let_def)
  have q: "keepCurrentSelection (onSelection exampleViewerEnv (exampleState EmptySelection (Some 0))
        100 5 100 40 9 False)"
    by (rule onSelection_flag [OF z(1)])
  have u: "timelineWidthPx (exampleState EmptySelection None) = None"
    "visibleWindow (exampleState EmptySelection None) = (0, 100)"
    by (simp_all add: exampleState_def)
  have v: "visibleWindow (onZoomed exampleViewerEnv 1020 (exampleState EmptySelection None) 520 (1 / 2))
       = (25, 75)"
    by (simp add: onZoomed_def exampleViewerEnv_def exampleState_def jsDivide_def Let_def)
  from z p q u v show ?thesis by simp
qed

section \<open>The keep-current-selection flag\<close>

text \<open>
  C6. A background click calls \<open>selection.clear()\<close> if and only if the flag is unset at
  that moment, and leaves the flag unset. So after a pan or a drag selection (which set
  the flag when the timeline width is defined, and \<open>endSelection\<close> leaves it set), the
  first click keeps the selection and the second click clears it.
\<close>

theorem keep_current_selection_flag:
  "calls (onclick st) = (if keepCurrentSelection st then calls st else calls st @ [SelectionClear])
   \<and> \<not> keepCurrentSelection (onclick st)
   \<and> (keepCurrentSelection st \<longrightarrow>
        selection (onclick st) = selection st
      \<and> calls (onclick (onclick st)) = calls st @ [SelectionClear]
      \<and> selection (onclick (onclick st)) = EmptySelection)
   \<and> (\<not> keepCurrentSelection st \<longrightarrow> selection (onclick st) = EmptySelection)
   \<and> (timelineWidthPx st = Some w \<longrightarrow>
        keepCurrentSelection (onPanned env st pannedPx)
      \<and> selection (onclick (onPanned env st pannedPx)) = selection st
      \<and> keepCurrentSelection (endSelection (onSelection env st x0 y0 px x1 y1 ed) ed2)
      \<and> selection (onclick (endSelection (onSelection env st x0 y0 px x1 y1 ed) ed2))
          = selection (endSelection (onSelection env st x0 y0 px x1 y1 ed) ed2)
      \<and> selection (onclick (onclick (endSelection (onSelection env st x0 y0 px x1 y1 ed) ed2)))
          = EmptySelection)"
proof -
  have a: "calls (onclick s) = (if keepCurrentSelection s then calls s else calls s @ [SelectionClear])"
    for s :: "'a ViewerState"
    by (simp add: onclick_def selectionClear_def)
  have b: "\<not> keepCurrentSelection (onclick s)" for s :: "'a ViewerState"
    by (simp add: onclick_def selectionClear_def)
  have c: "selection (onclick s) = (if keepCurrentSelection s then selection s else EmptySelection)"
    for s :: "'a ViewerState"
    by (simp add: onclick_def selectionClear_def)
  have d: "keepCurrentSelection (onPanned env st pannedPx) \<and> selection (onPanned env st pannedPx) = selection st"
    if "timelineWidthPx st = Some w"
    using that by (simp add: onPanned_def Let_def)
  have e: "keepCurrentSelection (endSelection (onSelection env st x0 y0 px x1 y1 ed) ed2)"
    if "timelineWidthPx st = Some w"
    using onSelection_flag [OF that] by (simp add: endSelection_flag)
  have f: "calls (onclick (onclick s)) = calls s @ [SelectionClear]" if "keepCurrentSelection s"
    for s :: "'a ViewerState"
    using that by (simp add: a b)
  from a b c d e f show ?thesis by simp
qed

text \<open>
  On the example environment: the drag from 100 to 40 ends with the area \<open>[20, 80]\<close>
  selected; the first click keeps it, the second clears it. A click after a pan keeps
  the selected track, a click with the flag unset clears it.
\<close>

theorem keep_current_selection_flag_witness:
  "timelineWidthPx (exampleState EmptySelection (Some 100)) = Some 100
   \<and> selection (endSelection (onSelection exampleViewerEnv (exampleState EmptySelection (Some 100))
        100 5 100 40 9 False) False)
       = AreaSelection \<lparr>start = 20, endT = 80, trackUris = []\<rparr>
   \<and> selection (onclick (endSelection (onSelection exampleViewerEnv
        (exampleState EmptySelection (Some 100)) 100 5 100 40 9 False) False))
       = AreaSelection \<lparr>start = 20, endT = 80, trackUris = []\<rparr>
   \<and> selection (onclick (onclick (endSelection (onSelection exampleViewerEnv
        (exampleState EmptySelection (Some 100)) 100 5 100 40 9 False) False)))
       = EmptySelection
   \<and> selection (onclick (onPanned exampleViewerEnv (exampleState (TrackSelection ''t1'') (Some 100)) 7))
       = TrackSelection ''t1''
   \<and> selection (onclick (exampleState (TrackSelection ''t1'') (Some 100))) = EmptySelection"
proof -
  let ?st = "exampleState EmptySelection (Some 100)"
  let ?tr = "exampleState (TrackSelection ''t1'') (Some 100)"
  have w: "timelineWidthPx ?st = Some 100" "timelineWidthPx ?tr = Some 100"
    by (simp_all add: exampleState_def)
  have f: "\<not> keepCurrentSelection ?tr" "selection ?tr = TrackSelection ''t1''"
    by (simp_all add: exampleState_def)
  have c: "selection (endSelection (onSelection exampleViewerEnv ?st 100 5 100 40 9 False) False)
       = AreaSelection \<lparr>start = 20, endT = 80, trackUris = []\<rparr>"
    by (simp add: endSelection_def onSelection_def exampleViewerEnv_def exampleState_def
        linearTimeScale_def clamp_def timelineSelectArea_def timelineDeselectArea_def
        selectionSelectArea_def Let_def)
  note a = keep_current_selection_flag [where st = ?st and w = 100 and env = exampleViewerEnv and pannedPx = 7 and ?x0.0 = 100 and ?y0.0 = 5 and px = 100 and ?x1.0 = 40 and ?y1.0 = 9 and ed = False and ?ed2.0 = False]
  note b = keep_current_selection_flag [where st = ?tr and w = 100 and env = exampleViewerEnv and pannedPx = 7 and ?x0.0 = 100 and ?y0.0 = 5 and px = 100 and ?x1.0 = 40 and ?y1.0 = 9 and ed = False and ?ed2.0 = False]
  from w f c a b show ?thesis by simp
qed

section \<open>Sticky offsets and collapsed groups\<close>

lemma renderNodes_append:
  "renderNodes env (xs @ ys) indent topPx = renderNodes env xs indent topPx @ renderNodes env ys indent topPx"
  by (induction xs) (simp_all add: renderNodes_Nil renderNodes_Cons)

lemma renderNodes_single_group:
  assumes "\<not> headless n" and "children n \<noteq> []"
  shows "renderNodes env [n] indent topPx =
     [Group (collapsed n) (renderTrackPanel env n indent topPx) (isSummary n) topPx
        (if collapsed n then []
         else renderNodes env (children n) (indent + 1)
                (if isSummary n
                 then topPx + heightPx env (renderTrackPanel env n indent topPx)
                 else topPx))]"
  using assms by (simp add: renderNodes_Cons renderNodes_Nil)




text \<open>
  In a compiled list, every group at any depth carries the \<open>collapsed\<close> flag of the node
  its header was built for, and a group of a collapsed node has no child panels.
\<close>

lemma collapsed_groups_everywhere:
  "\<forall>g \<in> set (allEntries (renderNodes env nodes indent topPx)).
     case g of Panel p \<Rightarrow> True
     | Group c h s t cs \<Rightarrow> c = collapsed (node h) \<and> (collapsed (node h) \<longrightarrow> cs = [])"
proof (induction env nodes indent topPx rule: renderNodes.induct)
  case (1 env nodes indent topPx)
  show ?case
  proof
    fix g assume "g \<in> set (allEntries (renderNodes env nodes indent topPx))"
    then obtain x where x: "x \<in> set (renderNodes env nodes indent topPx)"
      and gx: "g \<in> set (entriesOf x)"
      by (auto simp: allEntries_def)
    from x obtain n where n: "n \<in> set nodes" and xn: "x \<in> set (if headless n then renderNodes env (children n) indent topPx
       else if children n = [] then [Panel (renderTrackPanel env n indent topPx)]
       else
         [Group (collapsed n) (renderTrackPanel env n indent topPx) (isSummary n) topPx
            (if collapsed n then []
             else renderNodes env (children n) (indent + 1)
                    (if isSummary n
                     then topPx + heightPx env (renderTrackPanel env n indent topPx)
                     else topPx))])"
      by (subst (asm) renderNodes.simps) auto
    from xn gx have g: "g \<in> set (allEntries (if headless n then renderNodes env (children n) indent topPx
       else if children n = [] then [Panel (renderTrackPanel env n indent topPx)]
       else
         [Group (collapsed n) (renderTrackPanel env n indent topPx) (isSummary n) topPx
            (if collapsed n then []
             else renderNodes env (children n) (indent + 1)
                    (if isSummary n
                     then topPx + heightPx env (renderTrackPanel env n indent topPx)
                     else topPx))]))"
      unfolding allEntries_def by auto
    show "case g of Panel p \<Rightarrow> True
     | Group c h s t cs \<Rightarrow> c = collapsed (node h) \<and> (collapsed (node h) \<longrightarrow> cs = [])"
    proof (cases "headless n")
      case True
      with g have "g \<in> set (allEntries (renderNodes env (children n) indent topPx))" by simp
      with "1.IH"(1)[OF n True] show ?thesis by blast
    next
      case False
      note nh = False
      show ?thesis
      proof (cases "children n = []")
        case True
        with g nh show ?thesis by (auto simp: allEntries_def)
      next
        case False
        note ch = False
        show ?thesis
        proof (cases "collapsed n")
          case True
          with g nh ch show ?thesis
            by (auto simp: allEntries_def renderTrackPanel_def)
        next
          case False
          let ?next = "if isSummary n
                     then topPx + heightPx env (renderTrackPanel env n indent topPx)
                     else topPx"
          from g nh ch False have
            "g = Group False (renderTrackPanel env n indent topPx) (isSummary n) topPx
                   (renderNodes env (children n) (indent + 1) ?next)
             \<or> g \<in> set (allEntries (renderNodes env (children n) (indent + 1) ?next))"
            by (auto simp: allEntries_def)
          then show ?thesis
          proof
            assume "g = Group False (renderTrackPanel env n indent topPx) (isSummary n) topPx
                   (renderNodes env (children n) (indent + 1) ?next)"
            with False show ?thesis by (simp add: renderTrackPanel_def)
          next
            assume "g \<in> set (allEntries (renderNodes env (children n) (indent + 1) ?next))"
            with "1.IH"(2)[OF n nh ch False] show ?thesis by blast
          qed
        qed
      qed
    qed
  qed
qed

text \<open>
  C8. A collapsed group (a collapsed node of the compiler's third case: not headless,
  with children) compiles, wherever it stands among its siblings and at whatever
  indentation and offset, to one group with its own header panel and no child panels:
  the only panel it contributes is its header, however deep the tree below it is. And in
  the list compiled from any track tree, every group at any depth whose node is
  collapsed has no child panels.
\<close>

theorem collapsed_group_hides_children:
  assumes "\<not> headless n" and "collapsed n" and "children n \<noteq> []"
    and "hdr = renderTrackPanel env n indent topPx"
  shows "renderNodes env (before @ n # after) indent topPx =
           renderNodes env before indent topPx
           @ [Group True hdr (isSummary n) topPx []]
           @ renderNodes env after indent topPx
       \<and> allPanels (renderNodes env [n] indent topPx) = [hdr]
       \<and> node hdr = n
       \<and> (\<forall>g \<in> set (allEntries (renderNodes env tree indent0 topPx0)).
            case g of Panel p \<Rightarrow> True
            | Group c h s t cs \<Rightarrow> c = collapsed (node h) \<and> (collapsed (node h) \<longrightarrow> cs = []))"
proof -
  have a: "renderNodes env [n] indent topPx = [Group True hdr (isSummary n) topPx []]"
    using assms by (simp add: renderNodes_single_group)
  have "renderNodes env (before @ n # after) indent topPx =
          renderNodes env before indent topPx @ renderNodes env ([n] @ after) indent topPx"
    by (simp add: renderNodes_append)
  then have b: "renderNodes env (before @ n # after) indent topPx =
           renderNodes env before indent topPx
           @ [Group True hdr (isSummary n) topPx []]
           @ renderNodes env after indent topPx"
    by (simp only: renderNodes_append a)
  have c: "allPanels (renderNodes env [n] indent topPx) = [hdr]"
    by (simp add: a allPanels_def)
  have d: "node hdr = n"
    using assms by (simp add: renderTrackPanel_def Let_def)
  note e = collapsed_groups_everywhere [of env tree indent0 topPx0]
  from b c d e show ?thesis by blast
qed

text \<open>
  The collapsed group \<open>B\<close> over the group \<open>A\<close> (itself over \<open>B\<close> over \<open>C\<close>) and the leaf
  \<open>C\<close>, between two sibling leaves: one group, one header panel, nothing of the subtree.
  One level down, inside an expanded group, it compiles the same way.
\<close>

theorem collapsed_group_hides_children_witness:
  "\<not> headless collapsedB \<and> collapsed collapsedB \<and> children collapsedB = [groupA, leafC]
   \<and> renderNodes examplePanelEnv ([leafC] @ collapsedB # [leafC]) 0 0 =
       [Panel (renderTrackPanel examplePanelEnv leafC 0 0),
        Group True (renderTrackPanel examplePanelEnv collapsedB 0 0) True 0 [],
        Panel (renderTrackPanel examplePanelEnv leafC 0 0)]
   \<and> map node (allPanels (renderNodes examplePanelEnv [collapsedB] 0 0)) = [collapsedB]
   \<and> renderToplevelPanels examplePanelEnv [groupOverCollapsed] =
       [Group False (renderTrackPanel examplePanelEnv groupOverCollapsed 0 0) True 0
          [Group True (renderTrackPanel examplePanelEnv collapsedB 1 20) True 20 []]]
   \<and> map node (allPanels (renderToplevelPanels examplePanelEnv [groupOverCollapsed]))
       = [groupOverCollapsed, collapsedB]"
proof -
  have h: "\<not> headless collapsedB" "collapsed collapsedB" "children collapsedB \<noteq> []"
    "isSummary collapsedB" "children collapsedB = [groupA, leafC]"
    by (simp_all add: collapsedB_def)
  have o: "\<not> headless groupOverCollapsed" "children groupOverCollapsed \<noteq> []"
    "children groupOverCollapsed = [collapsedB]" "\<not> collapsed groupOverCollapsed"
    "isSummary groupOverCollapsed"
    by (simp_all add: groupOverCollapsed_def)
  have h20: "heightPx examplePanelEnv (renderTrackPanel examplePanelEnv groupOverCollapsed 0 0) = 20"
    by (simp add: examplePanelEnv_def renderTrackPanel_def groupOverCollapsed_def)
  have l: "renderNodes examplePanelEnv [leafC] 0 0 = [Panel (renderTrackPanel examplePanelEnv leafC 0 0)]"
    by (simp add: renderNodes_Cons renderNodes_Nil leafC_def)
  note t = collapsed_group_hides_children [OF h(1) h(2) h(3) refl, where env = examplePanelEnv and indent = 0 and topPx = 0 and before = "[leafC]" and after = "[leafC]"]
  note t1 = collapsed_group_hides_children [OF h(1) h(2) h(3) refl, where env = examplePanelEnv and indent = 1 and topPx = 20 and before = "[]" and after = "[]"]
  from t1 have inner: "renderNodes examplePanelEnv [collapsedB] (Suc 0) 20 =
      [Group True (renderTrackPanel examplePanelEnv collapsedB 1 20) True 20 []]"
    using h(4) by (simp add: renderNodes_Nil)
  have outer: "renderToplevelPanels examplePanelEnv [groupOverCollapsed] =
       [Group False (renderTrackPanel examplePanelEnv groupOverCollapsed 0 0) True 0
          [Group True (renderTrackPanel examplePanelEnv collapsedB 1 20) True 20 []]]"
    using o h20 inner
    by (simp add: renderToplevelPanels_def renderNodes_single_group)
  have nodes: "map node (allPanels (renderToplevelPanels examplePanelEnv [groupOverCollapsed]))
       = [groupOverCollapsed, collapsedB]"
    unfolding outer by (simp add: allPanels_def renderTrackPanel_def)
  from t h l outer nodes show ?thesis by simp
qed

section \<open>Latest selection wins\<close>

lemma monitorOk_init: "monitorOk tabInit"
  by (simp add: monitorOk_def tabInit_def)

lemma maybeLoad_monitor:
  "monitorCached (maybeLoadDetailsPanel env st) = Some (selectionObject st)
   \<and> selectionObject (maybeLoadDetailsPanel env st) = selectionObject st"
  by (simp add: maybeLoadDetailsPanel_def ifStateChanged_def Let_def
      split: Selection.split option.split bool.split)

lemma monitorOk_step: "monitorOk st \<Longrightarrow> monitorOk (tabStep env st ev)"
proof (cases ev)
  case (SetSelection sel)
  assume "monitorOk st"
  then show ?thesis using SetSelection
    by (simp add: monitorOk_def setSelection_def split: option.splits)
next
  case Render
  then show ?thesis by (simp add: monitorOk_def maybeLoad_monitor)
next
  case (LoadCompleted a)
  assume "monitorOk st"
  then show ?thesis using LoadCompleted
    by (simp add: monitorOk_def loadCompleted_def split: option.splits)
qed

lemma monitorOk_run: "monitorOk st \<Longrightarrow> monitorOk (tabRun env st evs)"
  by (induction evs arbitrary: st) (simp_all add: monitorOk_step)

lemma maybeLoad_unchanged:
  "monitorCached st = Some (selectionObject st) \<Longrightarrow> maybeLoadDetailsPanel env st = st"
  by (simp add: maybeLoadDetailsPanel_def ifStateChanged_def split: bool.split)

lemma maybeLoad_schedules:
  assumes "monitorCached st \<noteq> Some (selectionObject st)"
    and "panelFor env (currentSelection st) = Some dp"
  shows "maybeLoadDetailsPanel env st =
           st\<lparr>monitorCached := Some (selectionObject st),
              renderables := renderables st @ [\<lparr>detailsPanel = dp, isLoading = True\<rparr>],
              scheduled := scheduled st @ [length (renderables st)],
              trackEventDetailsPanel := Some (length (renderables st))\<rparr>"
  using assms
  by (auto simp: maybeLoadDetailsPanel_def ifStateChanged_def panelFor_def Let_def
      split: Selection.splits option.splits bool.splits)

lemma select_then_render:
  assumes "monitorOk st" and "panelFor env sel = Some dp"
  shows "tabRun env st [SetSelection sel, Render] =
           st\<lparr>currentSelection := sel,
              selectionObject := selectionObject st + 1,
              monitorCached := Some (selectionObject st + 1),
              renderables := renderables st @ [\<lparr>detailsPanel = dp, isLoading = True\<rparr>],
              scheduled := scheduled st @ [length (renderables st)],
              trackEventDetailsPanel := Some (length (renderables st))\<rparr>"
proof -
  let ?s1 = "setSelection sel st"
  have m: "monitorCached ?s1 \<noteq> Some (selectionObject ?s1)"
    using assms(1) by (simp add: monitorOk_def setSelection_def split: option.splits)
  have p: "panelFor env (currentSelection ?s1) = Some dp"
    using assms(2) by (simp add: setSelection_def)
  show ?thesis
    by (simp add: maybeLoad_schedules [OF m p]) (simp add: setSelection_def)
qed

lemma loadCompleted_frame:
  "trackEventDetailsPanel (loadCompleted a st) = trackEventDetailsPanel st
   \<and> scheduled (loadCompleted a st) = scheduled st
   \<and> monitorCached (loadCompleted a st) = monitorCached st
   \<and> selectionObject (loadCompleted a st) = selectionObject st
   \<and> length (renderables (loadCompleted a st)) = length (renderables st)
   \<and> (a \<noteq> y \<longrightarrow> renderables (loadCompleted a st) ! y = renderables st ! y)"
  by (simp add: loadCompleted_def)

lemma loadCompleted_own:
  "y \<in> set (scheduled st) \<Longrightarrow> y < length (renderables st) \<Longrightarrow>
   renderables (loadCompleted y st) ! y = (renderables st ! y)\<lparr>isLoading := False\<rparr>"
  by (simp add: loadCompleted_def)

lemma run_keeps_slot:
  assumes "\<forall>ev \<in> set evs. \<not> isSetSelection ev"
    and "trackEventDetailsPanel st = Some y"
    and "y < length (renderables st)"
    and "y \<in> set (scheduled st)"
    and "monitorCached st = Some (selectionObject st)"
  shows "trackEventDetailsPanel (tabRun env st evs) = Some y
       \<and> detailsPanel (renderables (tabRun env st evs) ! y) = detailsPanel (renderables st ! y)
       \<and> isLoading (renderables (tabRun env st evs) ! y)
           = (isLoading (renderables st ! y) \<and> LoadCompleted y \<notin> set evs)"
  using assms
proof (induction evs arbitrary: st)
  case Nil
  then show ?case by simp
next
  case (Cons ev evs)
  from Cons.prems(1) have rest: "\<forall>ev \<in> set evs. \<not> isSetSelection ev" by simp
  show ?case
  proof (cases ev)
    case (SetSelection sel)
    with Cons.prems(1) show ?thesis by simp
  next
    case Render
    have "tabStep env st ev = st"
      using Render Cons.prems(5) by (simp add: maybeLoad_unchanged)
    with Cons.IH [OF rest Cons.prems(2-5)] Render show ?thesis by simp
  next
    case (LoadCompleted a)
    let ?s = "loadCompleted a st"
    note f = loadCompleted_frame [of a st y]
    have p: "trackEventDetailsPanel ?s = Some y" "y < length (renderables ?s)"
      "y \<in> set (scheduled ?s)" "monitorCached ?s = Some (selectionObject ?s)"
      using f Cons.prems by simp_all
    note ih = Cons.IH [OF rest p]
    show ?thesis
    proof (cases "a = y")
      case True
      have "renderables ?s ! y = (renderables st ! y)\<lparr>isLoading := False\<rparr>"
        using True loadCompleted_own [OF Cons.prems(4) Cons.prems(3)] by simp
      with ih LoadCompleted True show ?thesis by simp
    next
      case False
      with f have "renderables ?s ! y = renderables st ! y" by simp
      with ih LoadCompleted False show ?thesis by simp
    qed
  qed
qed


lemma tabRun_append: "tabRun env st (xs @ ys) = tabRun env (tabRun env st xs) ys"
  by (induction xs arbitrary: st) simp_all

lemma run_without_selection:
  assumes "\<forall>ev \<in> set evs. \<not> isSetSelection ev"
    and "monitorCached st = Some (selectionObject st)"
  shows "monitorCached (tabRun env st evs) = Some (selectionObject (tabRun env st evs))
       \<and> length (renderables (tabRun env st evs)) = length (renderables st)
       \<and> scheduled (tabRun env st evs) = scheduled st"
  using assms
proof (induction evs arbitrary: st)
  case Nil
  then show ?case by simp
next
  case (Cons ev evs)
  from Cons.prems(1) have rest: "\<forall>ev \<in> set evs. \<not> isSetSelection ev" by simp
  show ?case
  proof (cases ev)
    case (SetSelection sel)
    with Cons.prems(1) show ?thesis by simp
  next
    case Render
    have "tabStep env st ev = st"
      using Render Cons.prems(2) by (simp add: maybeLoad_unchanged)
    with Cons.IH [OF rest Cons.prems(2)] show ?thesis by simp
  next
    case (LoadCompleted a)
    note f = loadCompleted_frame [of a st a]
    have m: "monitorCached (loadCompleted a st) = Some (selectionObject (loadCompleted a st))"
      using f Cons.prems(2) by simp
    from Cons.IH [OF rest m] f LoadCompleted show ?thesis by simp
  qed
qed

text \<open>
  C1. After any history, let a load be scheduled for a track-event selection \<open>X\<close> (a
  selection change and a render) and then, after any renders and load completions but
  no further selection change, for a later track-event selection \<open>Y\<close>. Both closures
  are with the limiter, and the field holds \<open>Y\<close>'s renderable, loading. Whatever
  follows, in any order and without a further selection change (renders, the completion
  of \<open>X\<close>'s load, of \<open>Y\<close>'s, of older ones), the field still holds \<open>Y\<close>'s details
  panel and its \<open>isLoading\<close> is false exactly if \<open>Y\<close>'s own load has completed; the
  completion of \<open>X\<close>'s load neither replaces the field nor changes what it shows.
\<close>

theorem latest_selection_wins:
  assumes "panelFor env X = Some pX"
    and "panelFor env Y = Some pY"
    and "\<forall>ev \<in> set mid. \<not> isSetSelection ev"
    and "\<forall>ev \<in> set evs. \<not> isSetSelection ev"
    and "st0 = tabRun env tabInit history"
    and "x = length (renderables st0)"
    and "y = x + 1"
    and "st2 = tabRun env st0 ([SetSelection X, Render] @ mid @ [SetSelection Y, Render])"
    and "fin = tabRun env st2 evs"
  shows "scheduled st2 = scheduled st0 @ [x, y]
       \<and> detailsSlot st2 = Some \<lparr>detailsPanel = pY, isLoading = True\<rparr>
       \<and> trackEventDetailsPanel fin = Some y
       \<and> detailsSlot fin = Some \<lparr>detailsPanel = pY, isLoading = (LoadCompleted y \<notin> set evs)\<rparr>
       \<and> trackEventDetailsPanel (loadCompleted x fin) = Some y
       \<and> detailsSlot (loadCompleted x fin) = detailsSlot fin"
proof -
  have ok0: "monitorOk st0"
    using assms(5) by (simp add: monitorOk_run monitorOk_init)
  define s1 where "s1 = tabRun env st0 [SetSelection X, Render]"
  have s1: "s1 = st0\<lparr>currentSelection := X,
              selectionObject := selectionObject st0 + 1,
              monitorCached := Some (selectionObject st0 + 1),
              renderables := renderables st0 @ [\<lparr>detailsPanel = pX, isLoading = True\<rparr>],
              scheduled := scheduled st0 @ [length (renderables st0)],
              trackEventDetailsPanel := Some (length (renderables st0))\<rparr>"
    unfolding s1_def by (rule select_then_render [OF ok0 assms(1)])
  have m1: "monitorCached s1 = Some (selectionObject s1)"
    by (simp add: s1)
  define sm where "sm = tabRun env s1 mid"
  note mid = run_without_selection [OF assms(3) m1, of env, folded sm_def]
  have okm: "monitorOk sm"
    using mid by (simp add: monitorOk_def)
  have split: "st2 = tabRun env sm [SetSelection Y, Render]"
    using assms(8) by (simp only: tabRun_append s1_def sm_def)
  have s2: "st2 = sm\<lparr>currentSelection := Y,
              selectionObject := selectionObject sm + 1,
              monitorCached := Some (selectionObject sm + 1),
              renderables := renderables sm @ [\<lparr>detailsPanel = pY, isLoading = True\<rparr>],
              scheduled := scheduled sm @ [length (renderables sm)],
              trackEventDetailsPanel := Some (length (renderables sm))\<rparr>"
    unfolding split by (rule select_then_render [OF okm assms(2)])
  have len1: "length (renderables sm) = y" "scheduled sm = scheduled st0 @ [x]"
    using assms(6,7) mid by (simp_all add: s1)
  have f2: "trackEventDetailsPanel st2 = Some y" "scheduled st2 = scheduled st0 @ [x, y]"
    "renderables st2 = renderables sm @ [\<lparr>detailsPanel = pY, isLoading = True\<rparr>]"
    "monitorCached st2 = Some (selectionObject st2)"
    using len1 by (simp_all add: s2)
  have ry: "renderables st2 ! y = \<lparr>detailsPanel = pY, isLoading = True\<rparr>"
    "y < length (renderables st2)" "y \<in> set (scheduled st2)"
    using f2 len1 by (simp_all add: nth_append)
  note run = run_keeps_slot [OF assms(4) f2(1) ry(2) ry(3) f2(4), of env]
  have a: "detailsSlot st2 = Some \<lparr>detailsPanel = pY, isLoading = True\<rparr>"
    using f2(1) ry(1) by (simp add: detailsSlot_def)
  have b: "trackEventDetailsPanel fin = Some y"
    using run assms(9) by simp
  have "renderables fin ! y = \<lparr>detailsPanel = pY, isLoading = (LoadCompleted y \<notin> set evs)\<rparr>"
    using run assms(9) ry(1) by (cases "renderables fin ! y") simp
  with b have c: "detailsSlot fin
      = Some \<lparr>detailsPanel = pY, isLoading = (LoadCompleted y \<notin> set evs)\<rparr>"
    by (simp add: detailsSlot_def)
  have xy: "x \<noteq> y" using assms(7) by simp
  have d: "trackEventDetailsPanel (loadCompleted x fin) = Some y
       \<and> detailsSlot (loadCompleted x fin) = detailsSlot fin"
    using loadCompleted_frame [of x fin y] b xy by (simp add: detailsSlot_def)
  from f2(2) a b c d show ?thesis by simp
qed

text \<open>
  On the example registry: after selecting event 7 and then event 9, the completion of
  the load for event 7 leaves the slot on panel 9, still loading; once the load for
  event 9 completes as well, the slot shows panel 9, loaded.
\<close>

theorem latest_selection_wins_witness:
  "panelFor exampleTabEnv eventX = Some 7
   \<and> panelFor exampleTabEnv eventY = Some 9
   \<and> detailsSlot (tabRun exampleTabEnv
        (tabRun exampleTabEnv (tabRun exampleTabEnv tabInit [])
           ([SetSelection eventX, Render] @ [Render] @ [SetSelection eventY, Render]))
        [LoadCompleted 0])
       = Some \<lparr>detailsPanel = 9, isLoading = True\<rparr>
   \<and> detailsSlot (tabRun exampleTabEnv
        (tabRun exampleTabEnv (tabRun exampleTabEnv tabInit [])
           ([SetSelection eventX, Render] @ [Render] @ [SetSelection eventY, Render]))
        [LoadCompleted 0, Render, LoadCompleted 1])
       = Some \<lparr>detailsPanel = 9, isLoading = False\<rparr>"
proof -
  have pX: "panelFor exampleTabEnv eventX = Some 7"
    by (simp add: panelFor_def exampleTabEnv_def eventX_def)
  have pY: "panelFor exampleTabEnv eventY = Some 9"
    by (simp add: panelFor_def exampleTabEnv_def eventY_def)
  have m: "\<forall>ev \<in> set [Render]. \<not> isSetSelection ev" by simp
  have e1: "\<forall>ev \<in> set [LoadCompleted 0]. \<not> isSetSelection ev" by simp
  have e2: "\<forall>ev \<in> set [LoadCompleted 0, Render, LoadCompleted 1]. \<not> isSetSelection ev" by simp
  have x: "length (renderables (tabRun exampleTabEnv (tabInit :: nat TabPanelState) [])) = 0"
    by (simp add: tabInit_def)
  note t1 = latest_selection_wins [OF pX pY m e1 refl refl refl refl refl, where history = "[]"]
  note t2 = latest_selection_wins [OF pX pY m e2 refl refl refl refl refl, where history = "[]"]
  from t1 x have r1: "detailsSlot (tabRun exampleTabEnv
        (tabRun exampleTabEnv (tabRun exampleTabEnv tabInit [])
           ([SetSelection eventX, Render] @ [Render] @ [SetSelection eventY, Render]))
        [LoadCompleted 0])
       = Some \<lparr>detailsPanel = 9, isLoading = True\<rparr>"
    by simp
  from t2 x have r2: "detailsSlot (tabRun exampleTabEnv
        (tabRun exampleTabEnv (tabRun exampleTabEnv tabInit [])
           ([SetSelection eventX, Render] @ [Render] @ [SetSelection eventY, Render]))
        [LoadCompleted 0, Render, LoadCompleted 1])
       = Some \<lparr>detailsPanel = 9, isLoading = False\<rparr>"
    by simp
  from pX pY r1 r2 show ?thesis by blast
qed

section \<open>Completion of a fade-out\<close>

lemma callRes_resolved: "p < length (promises st) \<Longrightarrow> promises (callRes p st) ! p"
  by (simp add: callRes_def)

lemma update_True_keeps: "q < length xs \<Longrightarrow> xs ! q \<Longrightarrow> (xs[p := True]) ! q"
  by (cases "p = q") simp_all

lemma callRes_keeps:
  "q < length (promises st) \<Longrightarrow> promises st ! q \<Longrightarrow>
     promises (callRes p st) ! q \<and> q < length (promises (callRes p st))"
  by (simp add: callRes_def update_True_keeps)

lemma fadeStep_keeps:
  assumes "q < length (promises st)" and "promises st ! q"
  shows "promises (fadeStep st ev) ! q \<and> q < length (promises (fadeStep st ev))"
proof (cases ev)
  case FadeOutRemoved
  with assms show ?thesis
    by (simp add: FadeOut_onbeforeremove_def putResolver_def Let_def nth_append)
next
  case FadeOutCreated
  with assms show ?thesis
    by (simp add: FadeOut_oncreate_def resolve_def Let_def callRes_def update_True_keeps
        split: option.split)
next
  case FadeInCreated
  with assms show ?thesis by (simp add: FadeIn_oncreate_def Let_def)
next
  case (TimerFired i)
  with assms show ?thesis
    by (simp add: timerFires_def Let_def callRes_def update_True_keeps split: TimerCallback.split)
qed

lemma fadeRun_keeps:
  "q < length (promises st) \<Longrightarrow> promises st ! q \<Longrightarrow>
     promises (fadeRun st evs) ! q \<and> q < length (promises (fadeRun st evs))"
proof (induction evs arbitrary: st)
  case Nil
  then show ?case by simp
next
  case (Cons ev evs)
  from fadeStep_keeps [OF Cons.prems, of ev] Cons.IH [of "fadeStep st ev"]
  show ?case by simp
qed

lemma timersCover_iff:
  "timersCover st \<longleftrightarrow>
     (\<forall>p < length (promises st). promises st ! p \<or> (ResolvePromise p, FADE_TIME_MS) \<in> set (timers st))"
  by (auto simp: timersCover_def list_all_iff)

lemma in_set_remove_nth:
  assumes "x \<in> set xs" and "i < length xs" and "x \<noteq> xs ! i"
  shows "x \<in> set (take i xs @ drop (Suc i) xs)"
proof -
  have "xs = take i xs @ xs ! i # drop (Suc i) xs"
    using assms(2) by (rule id_take_nth_drop)
  then have "set xs = set (take i xs @ xs ! i # drop (Suc i) xs)"
    by simp
  then have "set xs = set (take i xs) \<union> {xs ! i} \<union> set (drop (Suc i) xs)"
    by (simp only: set_append list.set) auto
  with assms(1,3) show ?thesis by auto
qed

lemma timersCover_step: "timersCover st \<Longrightarrow> timersCover (fadeStep st ev)"
proof (cases ev)
  case FadeOutRemoved
  assume "timersCover st"
  then show ?thesis using FadeOutRemoved
    by (auto simp: timersCover_iff FadeOut_onbeforeremove_def putResolver_def Let_def
        nth_append less_Suc_eq)
next
  case FadeOutCreated
  assume "timersCover st"
  then show ?thesis using FadeOutCreated
    by (auto simp: timersCover_iff FadeOut_oncreate_def resolve_def Let_def callRes_def
        update_True_keeps split: option.split)
next
  case FadeInCreated
  assume "timersCover st"
  then show ?thesis using FadeInCreated
    by (auto simp: timersCover_iff FadeIn_oncreate_def Let_def)
next
  case (TimerFired i)
  assume c: "timersCover st"
  show ?thesis
  proof (cases "i < length (timers st)")
    case False
    with c TimerFired show ?thesis by (simp add: timerFires_def)
  next
    case True
    let ?rest = "take i (timers st) @ drop (Suc i) (timers st)"
    have keep: "(ResolvePromise p, FADE_TIME_MS) \<in> set ?rest"
      if "(ResolvePromise p, FADE_TIME_MS) \<in> set (timers st)"
        and "timers st ! i \<noteq> (ResolvePromise p, FADE_TIME_MS)" for p
      using in_set_remove_nth [OF that(1) True] that(2) by auto
    show ?thesis
    proof (cases "fst (timers st ! i)")
      case (ResolvePromise q)
      have "promises (timerFires i st) = (promises st)[q := True]"
        "timers (timerFires i st) = ?rest"
        using True ResolvePromise by (simp_all add: timerFires_def Let_def callRes_def)
      moreover have "promises st ! p \<or> p = q \<or> (ResolvePromise p, FADE_TIME_MS) \<in> set ?rest"
        if "p < length (promises st)" for p
      proof -
        from c that have "promises st ! p \<or> (ResolvePromise p, FADE_TIME_MS) \<in> set (timers st)"
          by (simp add: timersCover_iff)
        then show ?thesis
        proof
          assume "promises st ! p" then show ?thesis by simp
        next
          assume m: "(ResolvePromise p, FADE_TIME_MS) \<in> set (timers st)"
          show ?thesis
          proof (cases "p = q")
            case True then show ?thesis by simp
          next
            case False
            with ResolvePromise have "timers st ! i \<noteq> (ResolvePromise p, FADE_TIME_MS)" by auto
            from keep [OF m this] show ?thesis by simp
          qed
        qed
      qed
      ultimately have "(promises (timerFires i st)) ! p
            \<or> (ResolvePromise p, FADE_TIME_MS) \<in> set (timers (timerFires i st))"
        if "p < length (promises st)" for p
        using that by (cases "p = q") (auto simp: update_True_keeps)
      moreover have "length (promises (timerFires i st)) = length (promises st)"
        using True ResolvePromise by (simp add: timerFires_def Let_def callRes_def)
      ultimately show ?thesis using TimerFired
        by (simp add: timersCover_iff)
    next
      case (ShowFadeIn k)
      have "promises (timerFires i st) = promises st"
        "timers (timerFires i st) = ?rest"
        using True ShowFadeIn by (simp_all add: timerFires_def Let_def)
      moreover have "promises st ! p \<or> (ResolvePromise p, FADE_TIME_MS) \<in> set ?rest"
        if "p < length (promises st)" for p
      proof -
        from c that have "promises st ! p \<or> (ResolvePromise p, FADE_TIME_MS) \<in> set (timers st)"
          by (simp add: timersCover_iff)
        moreover from ShowFadeIn have "timers st ! i \<noteq> (ResolvePromise p, FADE_TIME_MS)" by auto
        ultimately show ?thesis using keep by blast
      qed
      ultimately show ?thesis using TimerFired by (simp add: timersCover_iff)
    qed
  qed
qed

lemma timersCover_run: "timersCover st \<Longrightarrow> timersCover (fadeRun st evs)"
  by (induction evs arbitrary: st) (simp_all add: timersCover_step)

lemma timersCover_init: "timersCover fadeInit"
  by (simp add: timersCover_def fadeInit_def)

lemma fadeRun_append: "fadeRun st (xs @ ys) = fadeRun (fadeRun st xs) ys"
  by (induction xs arbitrary: st) simp_all

lemma fadeStep_length: "length (promises st) \<le> length (promises (fadeStep st ev))"
  by (cases ev)
    (simp_all add: FadeOut_onbeforeremove_def putResolver_def FadeOut_oncreate_def resolve_def
      FadeIn_oncreate_def timerFires_def callRes_def Let_def
      split: option.split TimerCallback.split)

lemma fadeRun_length: "length (promises st) \<le> length (promises (fadeRun st evs))"
proof (induction evs arbitrary: st)
  case Nil
  then show ?case by simp
next
  case (Cons ev evs)
  from fadeStep_length [of st ev] Cons.IH [of "fadeStep st ev"] show ?case by simp
qed

lemma fadeStep_resolver:
  assumes "ev \<noteq> FadeOutRemoved" and "p < length (promises st)"
    and "resolver st = Some p \<or> promises st ! p"
  shows "resolver (fadeStep st ev) = Some p \<or> promises (fadeStep st ev) ! p"
proof (cases ev)
  case FadeOutRemoved
  with assms(1) show ?thesis by simp
next
  case FadeOutCreated
  with assms(2,3) show ?thesis
    by (auto simp: FadeOut_oncreate_def resolve_def Let_def callRes_def update_True_keeps
        split: option.split)
next
  case FadeInCreated
  with assms(3) show ?thesis by (simp add: FadeIn_oncreate_def Let_def)
next
  case (TimerFired i)
  with assms(2,3) show ?thesis
    by (auto simp: timerFires_def Let_def callRes_def update_True_keeps
        split: TimerCallback.split)
qed

lemma fadeRun_resolver:
  assumes "\<forall>ev \<in> set evs. ev \<noteq> FadeOutRemoved" and "p < length (promises st)"
    and "resolver st = Some p \<or> promises st ! p"
  shows "resolver (fadeRun st evs) = Some p \<or> promises (fadeRun st evs) ! p"
  using assms
proof (induction evs arbitrary: st)
  case Nil
  then show ?case by simp
next
  case (Cons ev evs)
  from Cons.prems(1) have ne: "ev \<noteq> FadeOutRemoved"
    and rest: "\<forall>ev \<in> set evs. ev \<noteq> FadeOutRemoved" by simp_all
  have l: "p < length (promises (fadeStep st ev))"
    using fadeStep_length [of st ev] Cons.prems(2) by simp
  from Cons.IH [OF rest l fadeStep_resolver [OF ne Cons.prems(2) Cons.prems(3)]]
  show ?case by simp
qed

lemma resolve_resolves:
  "p < length (promises st) \<Longrightarrow> resolver st = Some p \<or> promises st ! p \<Longrightarrow>
     promises (FadeOut_oncreate st) ! p"
  by (auto simp: FadeOut_oncreate_def resolve_def Let_def callRes_def update_True_keeps
      split: option.split)

lemma timerFires_resolves:
  "p < length (promises st) \<Longrightarrow> i < length (timers st) \<Longrightarrow>
     fst (timers st ! i) = ResolvePromise p \<Longrightarrow> promises (timerFires i st) ! p"
  by (simp add: timerFires_def Let_def callRes_def)


text \<open>
  C9, as the code has it. In any state the components can reach, let a \<open>FadeOut\<close> be
  removed: \<open>onbeforeremove\<close> creates a pending promise \<open>p\<close>, stores its \<open>res\<close> in the
  context and starts a timer of \<open>FADE_TIME_MS\<close> for it. The promise is resolved when
  that timer fires, and when the next \<open>FadeOut\<close> is created (its \<open>oncreate\<close> calls
  \<open>context.resolve()\<close>) provided no other \<open>FadeOut\<close> was removed in between,
  whichever comes first. \<open>context.resolve()\<close> leaves the no-op in the context, so a
  second \<open>resolve()\<close> resolves nothing. The creation of a \<open>FadeIn\<close> touches neither
  the promises nor the context. A resolved promise stays resolved, and every promise
  that is not resolved yet still has its timer pending, so each one completes. The
  creation of a \<open>FadeOut\<close> cancels no timer, and a timer that fires leaves the stored
  resolver as it is.
\<close>

theorem fade_out_completion:
  assumes "st = fadeRun fadeInit history"
    and "p = fst (FadeOut_onbeforeremove st)"
    and "st1 = snd (FadeOut_onbeforeremove st)"
  shows "p = length (promises st) \<and> p < length (promises st1) \<and> \<not> promises st1 ! p
       \<and> resolver st1 = Some p
       \<and> timers st1 = timers st @ [(ResolvePromise p, FADE_TIME_MS)]
       \<and> promises (timerFires (length (timers st)) st1) ! p
       \<and> promises (FadeOut_oncreate st1) ! p
       \<and> resolver (FadeOut_oncreate st1) = None
       \<and> promises (FadeOut_oncreate (FadeOut_oncreate st1)) = promises (FadeOut_oncreate st1)
       \<and> promises (FadeIn_oncreate st1) = promises st1
       \<and> resolver (FadeIn_oncreate st1) = resolver st1
       \<and> (\<forall>evs q. q < length (promises st1) \<and> promises (fadeRun st1 evs) ! q \<longrightarrow>
             (\<forall>more. promises (fadeRun (fadeRun st1 evs) more) ! q))
       \<and> (\<forall>evs. timersCover (fadeRun st1 evs))
       \<and> (\<forall>evs. (\<forall>ev \<in> set evs. ev \<noteq> FadeOutRemoved) \<longrightarrow>
             promises (fadeRun st1 (evs @ [FadeOutCreated])) ! p)
       \<and> (\<forall>evs i. i < length (timers (fadeRun st1 evs))
               \<and> fst (timers (fadeRun st1 evs) ! i) = ResolvePromise p \<longrightarrow>
             promises (fadeRun st1 (evs @ [TimerFired i])) ! p)
       \<and> (\<forall>s. timers (FadeOut_oncreate s) = timers s)
       \<and> (\<forall>s i. resolver (timerFires i s) = resolver s)"
proof -
  have a: "p = length (promises st)" "p < length (promises st1)" "\<not> promises st1 ! p"
    "resolver st1 = Some p" "timers st1 = timers st @ [(ResolvePromise p, FADE_TIME_MS)]"
    using assms(2,3) by (simp_all add: FadeOut_onbeforeremove_def putResolver_def Let_def)
  have b: "promises (timerFires (length (timers st)) st1) ! p"
    using a by (simp add: timerFires_def Let_def callRes_def)
  have c: "promises (FadeOut_oncreate st1) ! p" "resolver (FadeOut_oncreate st1) = None"
    using a by (simp_all add: FadeOut_oncreate_def resolve_def Let_def callRes_def)
  have d: "promises (FadeOut_oncreate (FadeOut_oncreate st1)) = promises (FadeOut_oncreate st1)"
    using c(2) by (simp add: FadeOut_oncreate_def resolve_def Let_def)
  have e: "promises (FadeIn_oncreate st1) = promises st1"
    "resolver (FadeIn_oncreate st1) = resolver st1"
    by (simp_all add: FadeIn_oncreate_def Let_def)
  have lenmono: "length (promises s) \<le> length (promises (fadeRun s evs))" for s evs
    by (rule fadeRun_length)
  have f: "\<forall>evs q. q < length (promises st1) \<and> promises (fadeRun st1 evs) ! q \<longrightarrow>
             (\<forall>more. promises (fadeRun (fadeRun st1 evs) more) ! q)"
  proof (intro allI impI)
    fix evs q more
    assume h: "q < length (promises st1) \<and> promises (fadeRun st1 evs) ! q"
    with lenmono [of st1 evs] have "q < length (promises (fadeRun st1 evs))" by simp
    with h fadeRun_keeps [of q "fadeRun st1 evs" more]
    show "promises (fadeRun (fadeRun st1 evs) more) ! q" by simp
  qed
  have "timersCover st"
    using assms(1) by (simp add: timersCover_run timersCover_init)
  then have "timersCover st1"
    using timersCover_step [of st FadeOutRemoved] assms(3) by simp
  then have g: "\<forall>evs. timersCover (fadeRun st1 evs)"
    by (simp add: timersCover_run)
  have h: "\<forall>evs. (\<forall>ev \<in> set evs. ev \<noteq> FadeOutRemoved) \<longrightarrow>
             promises (fadeRun st1 (evs @ [FadeOutCreated])) ! p"
  proof (intro allI impI)
    fix evs assume ne: "\<forall>ev \<in> set evs. ev \<noteq> FadeOutRemoved"
    have r: "resolver st1 = Some p \<or> promises st1 ! p" using a(4) by simp
    have l: "p < length (promises (fadeRun st1 evs))"
      using lenmono [of st1 evs] a(2) by simp
    from resolve_resolves [OF l fadeRun_resolver [OF ne a(2) r]]
    show "promises (fadeRun st1 (evs @ [FadeOutCreated])) ! p"
      by (simp add: fadeRun_append)
  qed
  have k: "\<forall>evs i. i < length (timers (fadeRun st1 evs))
               \<and> fst (timers (fadeRun st1 evs) ! i) = ResolvePromise p \<longrightarrow>
             promises (fadeRun st1 (evs @ [TimerFired i])) ! p"
  proof (intro allI impI)
    fix evs i
    assume t: "i < length (timers (fadeRun st1 evs))
               \<and> fst (timers (fadeRun st1 evs) ! i) = ResolvePromise p"
    have l: "p < length (promises (fadeRun st1 evs))"
      using lenmono [of st1 evs] a(2) by simp
    from timerFires_resolves [OF l] t
    show "promises (fadeRun st1 (evs @ [TimerFired i])) ! p"
      by (simp add: fadeRun_append)
  qed
  have tm: "\<forall>s. timers (FadeOut_oncreate s) = timers s"
    by (simp add: FadeOut_oncreate_def resolve_def Let_def callRes_def split: option.split)
  have rs: "\<forall>s i. resolver (timerFires i s) = resolver s"
    by (simp add: timerFires_def Let_def callRes_def split: TimerCallback.split)
  from a b c d e f g h k tm rs show ?thesis by blast
qed

text \<open>
  A run: a first fade-out completes by its timer; a second one is pending, stays
  pending when a \<open>FadeIn\<close> is created, and is resolved by the next \<open>FadeOut\<close>'s
  creation or by its timer.
\<close>

theorem fade_out_completion_witness:
  "fst (FadeOut_onbeforeremove (fadeRun fadeInit [FadeOutRemoved, TimerFired 0])) = 1
   \<and> promises (fadeRun fadeInit [FadeOutRemoved, TimerFired 0, FadeOutRemoved]) = [True, False]
   \<and> promises (fadeRun fadeInit [FadeOutRemoved, TimerFired 0, FadeOutRemoved, FadeInCreated])
       = [True, False]
   \<and> promises (fadeRun fadeInit [FadeOutRemoved, TimerFired 0, FadeOutRemoved, FadeOutCreated])
       = [True, True]
   \<and> promises (fadeRun fadeInit [FadeOutRemoved, TimerFired 0, FadeOutRemoved, TimerFired 0])
       = [True, True]
   \<and> timersCover (fadeRun (snd (FadeOut_onbeforeremove
        (fadeRun fadeInit [FadeOutRemoved, TimerFired 0]))) [FadeInCreated, TimerFired 1])"
proof -
  note t = fade_out_completion [OF refl refl refl, where history = "[FadeOutRemoved, TimerFired 0]"]
  have v: "promises (fadeRun fadeInit [FadeOutRemoved, TimerFired 0, FadeOutRemoved]) = [True, False]"
    "promises (fadeRun fadeInit [FadeOutRemoved, TimerFired 0, FadeOutRemoved, FadeInCreated])
       = [True, False]"
    "promises (fadeRun fadeInit [FadeOutRemoved, TimerFired 0, FadeOutRemoved, FadeOutCreated])
       = [True, True]"
    "promises (fadeRun fadeInit [FadeOutRemoved, TimerFired 0, FadeOutRemoved, TimerFired 0])
       = [True, True]"
    "fst (FadeOut_onbeforeremove (fadeRun fadeInit [FadeOutRemoved, TimerFired 0])) = 1"
    by (simp_all add: fadeInit_def FadeOut_onbeforeremove_def putResolver_def FadeIn_oncreate_def
      FadeOut_oncreate_def resolve_def timerFires_def callRes_def Let_def)
  from t have "timersCover (fadeRun (snd (FadeOut_onbeforeremove
        (fadeRun fadeInit [FadeOutRemoved, TimerFired 0]))) [FadeInCreated, TimerFired 1])"
    by blast
  with v show ?thesis by simp
qed

text \<open>
  C9 as stated fails. The creation of a \<open>FadeIn\<close> does not resolve the pending
  fade-out: after \<open>onbeforeremove\<close> and a \<open>FadeIn\<close>'s \<open>oncreate\<close> the promise is still
  pending and its \<open>res\<close> still stored. When the timer resolves the promise first, the
  stored resolver is not replaced. When the next \<open>FadeOut\<close>'s creation resolves it
  first, the timer stays pending.
\<close>

theorem fade_in_mount_counterexample:
  "\<not> promises (fadeRun fadeInit [FadeOutRemoved, FadeInCreated]) ! 0
   \<and> resolver (fadeRun fadeInit [FadeOutRemoved, FadeInCreated]) = Some 0
   \<and> promises (fadeRun fadeInit [FadeOutRemoved, TimerFired 0]) ! 0
   \<and> resolver (fadeRun fadeInit [FadeOutRemoved, TimerFired 0]) = Some 0
   \<and> promises (fadeRun fadeInit [FadeOutRemoved, FadeOutCreated]) ! 0
   \<and> timers (fadeRun fadeInit [FadeOutRemoved, FadeOutCreated])
       = [(ResolvePromise 0, FADE_TIME_MS)]"
  by (simp add: fadeInit_def FadeOut_onbeforeremove_def putResolver_def FadeIn_oncreate_def
      FadeOut_oncreate_def resolve_def timerFires_def callRes_def Let_def)

end
